theory Spec2Isabelle
  imports Main "HOL-Library.Sublist"
begin

section \<open>The variable resolver of the OpenSCAD extension\<close>

text \<open>
  A shallow embedding of \<^verbatim>\<open>src/variableResolver.ts\<close>: the class \<^verbatim>\<open>VariableResolver\<close> with
  its methods \<^verbatim>\<open>resolveString\<close>, \<^verbatim>\<open>evaluateSingleVariable\<close> and \<^verbatim>\<open>getVersionNumber\<close>.
  Strings are lists of 8-bit characters. The host (Node's \<^verbatim>\<open>path\<close> module and the
  editor's workspace lookup) is a record of functions, the file system is an explicit
  state, exceptions and promise rejections are values of a sum type, and the calls made to
  the file system and to the notifier are collected in a list of events. Writes to the
  console are not modelled.
\<close>

subsection \<open>Characters and the version marker\<close>

definition backslash :: char where
  "backslash = CHR 0x5C"

definition line_terminator :: "char \<Rightarrow> bool" where
  \<comment> \<open>the characters the dot of a regular expression does not match (of those below 256)\<close>
  "line_terminator c = (c = CHR 0x0A \<or> c = CHR 0x0D)"

definition is_digit :: "char \<Rightarrow> bool" where
  "is_digit c = (48 \<le> (of_char c :: nat) \<and> (of_char c :: nat) \<le> 57)"

definition is_nonzero_digit :: "char \<Rightarrow> bool" where
  "is_nonzero_digit c = (49 \<le> (of_char c :: nat) \<and> (of_char c :: nat) \<le> 57)"

definition version_marker :: string where
  \<comment> \<open>the text that \<^verbatim>\<open>VERSION_FORMAT = /\${#}/g\<close> matches\<close>
  "version_marker = ''${#}''"

text \<open>The leftmost occurrence of the marker: the text before it and the text after it.\<close>

fun split_marker :: "string \<Rightarrow> (string \<times> string) option" where
  "split_marker [] = None"
| "split_marker (c # cs) =
     (if prefix version_marker (c # cs) then Some ([], drop 3 cs)
      else (case split_marker cs of None \<Rightarrow> None | Some (p, s) \<Rightarrow> Some (c # p, s)))"

definition match_VERSION_FORMAT :: "string \<Rightarrow> bool" where
  \<comment> \<open>\<^verbatim>\<open>pattern.match(VERSION_FORMAT)\<close> is not null\<close>
  "match_VERSION_FORMAT s = (split_marker s \<noteq> None)"

fun replace_VERSION_FORMAT :: "string \<Rightarrow> string \<Rightarrow> string" where
  \<comment> \<open>\<^verbatim>\<open>s.replace(VERSION_FORMAT, rep)\<close>: the regex is global, every match is replaced\<close>
  "replace_VERSION_FORMAT rep [] = []"
| "replace_VERSION_FORMAT rep (c # cs) =
     (if prefix version_marker (c # cs) then rep @ replace_VERSION_FORMAT rep (drop 3 cs)
      else c # replace_VERSION_FORMAT rep cs)"

fun replace_first :: "string \<Rightarrow> string \<Rightarrow> string \<Rightarrow> string" where
  \<comment> \<open>\<^verbatim>\<open>s.replace(pat, rep)\<close> with a string \<^verbatim>\<open>pat\<close>: only the first occurrence;
      \<^verbatim>\<open>rep\<close> is taken literally (the one used below has no dollar sign)\<close>
  "replace_first pat rep [] = (if pat = [] then rep else [])"
| "replace_first pat rep (c # cs) =
     (if prefix pat (c # cs) then rep @ drop (length pat) (c # cs)
      else c # replace_first pat rep cs)"

subsection \<open>Numbers\<close>

text \<open>
  A JavaScript number is a double. The resolver only meets integral values, NaN and the
  infinities, so a number is modelled by its exact integer value; every operation rounds
  to the nearest double, ties to the even mantissa, as the engine does.
\<close>

datatype number = NaN | NegInfinity | Num int | Infinity

fun bit_length :: "nat \<Rightarrow> nat" where
  "bit_length n = (if n = 0 then 0 else Suc (bit_length (n div 2)))"

declare bit_length.simps [simp del]

definition round_to_double :: "nat \<Rightarrow> nat" where
  "round_to_double n =
     (if n < 2 ^ 53 then n
      else let e = bit_length n - 53; q = n div 2 ^ e; r = n mod 2 ^ e; h = 2 ^ (e - 1)
           in if r < h \<or> (r = h \<and> even q) then q * 2 ^ e else (q + 1) * 2 ^ e)"

definition number_of_nat :: "nat \<Rightarrow> number" where
  "number_of_nat n = (let m = round_to_double n in if m < 2 ^ 1024 then Num (int m) else Infinity)"

definition number_of_int :: "int \<Rightarrow> number" where
  "number_of_int i =
     (if 0 \<le> i then number_of_nat (nat i)
      else (case number_of_nat (nat (- i)) of Num m \<Rightarrow> Num (- m) | _ \<Rightarrow> NegInfinity))"

definition digit_value :: "char \<Rightarrow> nat" where
  "digit_value c = of_char c - 48"

definition decimal_value :: "string \<Rightarrow> nat" where
  "decimal_value s = foldl (\<lambda>a c. 10 * a + digit_value c) 0 s"

definition Number :: "string option \<Rightarrow> number" where
  \<comment> \<open>\<^verbatim>\<open>Number(matched[1])\<close>: \<^verbatim>\<open>undefined\<close> gives NaN, a string of digits its rounded value\<close>
  "Number m = (case m of None \<Rightarrow> NaN | Some s \<Rightarrow> number_of_nat (decimal_value s))"

fun Math_max :: "number \<Rightarrow> number \<Rightarrow> number" where
  "Math_max NaN b = NaN"
| "Math_max a NaN = NaN"
| "Math_max Infinity b = Infinity"
| "Math_max a Infinity = Infinity"
| "Math_max NegInfinity b = b"
| "Math_max a NegInfinity = a"
| "Math_max (Num a) (Num b) = Num (max a b)"

fun less_than_zero :: "number \<Rightarrow> bool" where
  "less_than_zero NegInfinity = True"
| "less_than_zero (Num v) = (v < 0)"
| "less_than_zero _ = False"

fun plus_one :: "number \<Rightarrow> number" where
  "plus_one (Num v) = number_of_int (v + 1)"
| "plus_one x = x"

text \<open>
  \<^verbatim>\<open>String(version)\<close>: the shortest decimal digits \<open>s\<close> (\<open>k\<close> of them) with
  \<open>s * 10 ^ (n - k)\<close> rounding to the number, the closest such \<open>s\<close>; written out
  in full when \<open>n \<le> 21\<close> and with an exponent otherwise.
\<close>

fun decimal :: "nat \<Rightarrow> string" where
  "decimal n = (if n < 10 then [char_of (48 + n)] else decimal (n div 10) @ [char_of (48 + n mod 10)])"

declare decimal.simps [simp del]

definition digit_candidates :: "nat \<Rightarrow> (nat \<times> nat \<times> nat) list" where
  "digit_candidates x =
     (let d = length (decimal x)
      in concat (map (\<lambda>k. concat (map (\<lambda>n. concat (map (\<lambda>s.
             if 10 ^ (k - 1) \<le> s \<and> s < 10 ^ k \<and> round_to_double (s * 10 ^ (n - k)) = x
             then [(k, n, s)] else [])
           [x div 10 ^ (n - k), Suc (x div 10 ^ (n - k))]))
         [d, Suc d]))
       [1 ..< Suc (min d 17)]))"

definition closer :: "nat \<Rightarrow> nat \<times> nat \<times> nat \<Rightarrow> nat \<times> nat \<times> nat \<Rightarrow> nat \<times> nat \<times> nat" where
  "closer x b a =
     (case (a, b) of ((ka, na, sa), (kb, nb, sb)) \<Rightarrow>
        let da = \<bar>int (sa * 10 ^ (na - ka)) - int x\<bar>; db = \<bar>int (sb * 10 ^ (nb - kb)) - int x\<bar>
        in if kb < ka \<or> (kb = ka \<and> (db < da \<or> (db = da \<and> even sb \<and> odd sa))) then b else a)"

definition shortest_digits :: "nat \<Rightarrow> nat \<times> nat \<times> nat" where
  "shortest_digits x =
     (case digit_candidates x of
        [] \<Rightarrow> (length (decimal x), length (decimal x), x)
      | c # cs \<Rightarrow> fold (closer x) cs c)"

definition nat_toString :: "nat \<Rightarrow> string" where
  "nat_toString x =
     (if x < 2 ^ 53 then decimal x
      else (case shortest_digits x of (k, n, s) \<Rightarrow>
        if n \<le> 21 then decimal s @ replicate (n - k) (CHR ''0'')
        else if k = 1 then decimal s @ ''e+'' @ decimal (n - 1)
        else hd (decimal s) # CHR ''.'' # tl (decimal s) @ ''e+'' @ decimal (n - 1)))"

fun String :: "number \<Rightarrow> string" where
  "String NaN = ''NaN''"
| "String Infinity = ''Infinity''"
| "String NegInfinity = ''-Infinity''"
| "String (Num v) = (if v < 0 then CHR ''-'' # nat_toString (nat (- v)) else nat_toString (nat v))"

subsection \<open>The regular expression of the version scanner\<close>

text \<open>
  \<^verbatim>\<open>escapeStringRegexp\<close> of the package escape-string-regexp: a backslash before each
  character that is special in a regular expression, then every hyphen as \<^verbatim>\<open>\x2d\<close>.
\<close>

definition regex_special :: "char \<Rightarrow> bool" where
  "regex_special c = (c \<in> set ''|{}()[]^$+*?.'' \<or> c = backslash)"

definition escapeStringRegexp :: "string \<Rightarrow> string" where
  "escapeStringRegexp s =
     concat (map (\<lambda>c. if c = CHR ''-'' then backslash # ''x2d'' else [c])
       (concat (map (\<lambda>c. if regex_special c then [backslash, c] else [c]) s)))"

definition escaped_marker :: string where
  \<comment> \<open>the string literal \<^verbatim>\<open>"\\$\\{#\\}"\<close>\<close>
  "escaped_marker = [backslash, CHR ''$'', backslash, CHR ''{'', CHR ''#'', backslash, CHR ''}'']"

definition number_group :: string where
  "number_group = ''([1-9][0-9]*)''"

text \<open>
  \<^verbatim>\<open>new RegExp(source)\<close> for the sources the scanner builds: escaped characters, plain
  characters and the capturing group \<^verbatim>\<open>([1-9][0-9]*)\<close>.
\<close>

datatype regex_item = RChar char | RNumberGroup

fun RegExp :: "string \<Rightarrow> regex_item list" where
  "RegExp [] = []"
| "RegExp (c # cs) =
     (if c = backslash then
        (case cs of
           [] \<Rightarrow> []
         | d # ds \<Rightarrow>
             if d = CHR ''x'' \<and> take 2 ds = ''2d'' then RChar (CHR ''-'') # RegExp (drop 2 ds)
             else RChar d # RegExp ds)
      else if prefix number_group (c # cs) then RNumberGroup # RegExp (drop 12 cs)
      else RChar c # RegExp cs)"

text \<open>
  Matching at the start of a string, with the captures in order. The digits after the
  first are matched greedily: the longest run is tried first, then shorter ones.
\<close>

fun first_some :: "'a option list \<Rightarrow> 'a option" where
  "first_some [] = None"
| "first_some (None # xs) = first_some xs"
| "first_some (Some x # xs) = Some x"

fun match_here :: "regex_item list \<Rightarrow> string \<Rightarrow> string list option" where
  "match_here [] s = Some []"
| "match_here (RChar c # r) s =
     (case s of [] \<Rightarrow> None | d # ds \<Rightarrow> if c = d then match_here r ds else None)"
| "match_here (RNumberGroup # r) s =
     (case s of
        [] \<Rightarrow> None
      | d # ds \<Rightarrow>
          if is_nonzero_digit d then
            first_some (map (\<lambda>k. map_option (\<lambda>caps. (d # take k ds) # caps) (match_here r (drop k ds)))
              (rev [0 ..< Suc (length (takeWhile is_digit ds))]))
          else None)"

definition exec :: "regex_item list \<Rightarrow> string \<Rightarrow> string list option" where
  \<comment> \<open>\<^verbatim>\<open>regex.exec(s)\<close> without the global flag: the leftmost match\<close>
  "exec r s = first_some (map (\<lambda>i. match_here r (drop i s)) [0 ..< Suc (length s)])"

definition first_capture :: "string list \<Rightarrow> string option" where
  \<comment> \<open>\<^verbatim>\<open>matched[1]\<close>, \<^verbatim>\<open>undefined\<close> when the regex has no group\<close>
  "first_capture caps = (case caps of [] \<Rightarrow> None | c # _ \<Rightarrow> Some c)"

subsection \<open>The host: Node's path module and the workspace of the editor\<close>

text \<open>
  The functions of \<^verbatim>\<open>path\<close> depend on the platform and are not part of the repository, so
  the resolver is modelled over any implementation of them. A resource is identified by
  its \<^verbatim>\<open>fsPath\<close>; \<open>getWorkspaceFolder\<close> gives the \<^verbatim>\<open>fsPath\<close> of the workspace folder that
  contains a resource, or nothing.
\<close>

record host =
  path_basename :: "string \<Rightarrow> string"
  path_basename_ext :: "string \<Rightarrow> string \<Rightarrow> string"
  path_extname :: "string \<Rightarrow> string"
  path_dirname :: "string \<Rightarrow> string"
  path_relative :: "string \<Rightarrow> string \<Rightarrow> string"
  path_join :: "string \<Rightarrow> string \<Rightarrow> string"
  path_isAbsolute :: "string \<Rightarrow> bool"
  getWorkspaceFolder :: "string \<Rightarrow> string option"

datatype errno = ENOENT | ENOTDIR | EACCES | EEXIST

datatype error =
    TypeError           \<comment> \<open>a property of \<^verbatim>\<open>undefined\<close> was read\<close>
  | FsError errno       \<comment> \<open>\<^verbatim>\<open>mkdirSync\<close> threw, with this code\<close>
  | Rejected number     \<comment> \<open>a promise was rejected with this value\<close>

definition fileBasenameNoExt :: "host \<Rightarrow> string \<Rightarrow> string" where
  "fileBasenameNoExt H uri = path_basename_ext H uri (path_extname H uri)"

subsection \<open>Evaluating one variable\<close>

text \<open>
  The parameter \<^verbatim>\<open>exportExt\<close> has the default \<^verbatim>\<open>"scad"\<close>, which applies when the caller
  passes \<^verbatim>\<open>undefined\<close> (\<open>None\<close>). The first statement reads
  \<^verbatim>\<open>getWorkspaceFolder(resource)!.uri.fsPath\<close>; the \<^verbatim>\<open>!\<close> is erased by the compiler, so
  the read throws a TypeError when there is no workspace folder.
\<close>

definition evaluateSingleVariable ::
  "host \<Rightarrow> string \<Rightarrow> string \<Rightarrow> string \<Rightarrow> string option \<Rightarrow> error + string" where
  "evaluateSingleVariable H match variable resource exportExtArg =
     (let exportExt = (case exportExtArg of None \<Rightarrow> ''scad'' | Some e \<Rightarrow> e)
      in case getWorkspaceFolder H resource of
           None \<Rightarrow> Inl TypeError
         | Some workspaceFolder \<Rightarrow> Inr
            (if variable = ''workspaceFolder'' then
               (if workspaceFolder \<noteq> [] then workspaceFolder else match)
             else if variable = ''workspaceFolderBasename'' then
               (if path_basename H workspaceFolder \<noteq> [] then path_basename H workspaceFolder else match)
             else if variable = ''file'' then resource
             else if variable = ''relativeFile'' then path_relative H workspaceFolder resource
             else if variable = ''relativeFileDirname'' then path_basename H (path_dirname H resource)
             else if variable = ''fileBasename'' then path_basename H resource
             else if variable = ''fileBasenameNoExtension'' then fileBasenameNoExt H resource
             else if variable = ''fileDirname'' then path_dirname H resource
             else if variable = ''fileExtname'' then path_extname H resource
             else if variable = ''exportExtension'' \<and> exportExt \<noteq> [] then exportExt
             else match))"

definition supported_variables :: "string list" where
  \<comment> \<open>the names with a case of their own in the switch that returns a value\<close>
  "supported_variables =
     [''workspaceFolder'', ''workspaceFolderBasename'', ''file'', ''relativeFile'',
      ''relativeFileDirname'', ''fileBasename'', ''fileBasenameNoExtension'', ''fileDirname'',
      ''fileExtname'', ''exportExtension'']"

subsection \<open>Replacing the variables of a pattern\<close>

text \<open>
  \<^verbatim>\<open>pattern.replace(VARIABLE_REGEXP, callback)\<close> with \<^verbatim>\<open>VARIABLE_REGEXP = /\$\{(.*?)\}/g\<close>:
  a match starts with \<^verbatim>\<open>${\<close> and ends at the first closing brace, with no line terminator
  in between; the callback gets the match and the captured name, and what it throws is
  thrown by \<^verbatim>\<open>replace\<close>.
\<close>

fun variable_end :: "string \<Rightarrow> (string \<times> string) option" where
  "variable_end [] = None"
| "variable_end (c # cs) =
     (if c = CHR ''}'' then Some ([], cs)
      else if line_terminator c then None
      else (case variable_end cs of None \<Rightarrow> None | Some (v, r) \<Rightarrow> Some (c # v, r)))"

definition next_variable :: "string \<Rightarrow> (string \<times> string) option" where
  "next_variable s =
     (case s of
        c # d # cs \<Rightarrow> if c = CHR ''$'' \<and> d = CHR ''{'' then variable_end cs else None
      | _ \<Rightarrow> None)"

lemma variable_end_shorter: "variable_end s = Some (v, r) \<Longrightarrow> length r < length s"
  by (induction s arbitrary: v) (auto split: if_splits option.splits)

lemma next_variable_shorter: "next_variable s = Some (v, r) \<Longrightarrow> length r < length s"
  by (auto simp: next_variable_def split: list.splits if_splits dest: variable_end_shorter)

function replace_VARIABLE_REGEXP ::
  "(string \<Rightarrow> string \<Rightarrow> error + string) \<Rightarrow> string \<Rightarrow> error + string" where
  "replace_VARIABLE_REGEXP f [] = Inr []"
| "replace_VARIABLE_REGEXP f (c # cs) =
     (case next_variable (c # cs) of
        None \<Rightarrow>
          (case replace_VARIABLE_REGEXP f cs of Inl e \<Rightarrow> Inl e | Inr t \<Rightarrow> Inr (c # t))
      | Some (v, r) \<Rightarrow>
          (case f (''${'' @ v @ ''}'') v of
             Inl e \<Rightarrow> Inl e
           | Inr x \<Rightarrow>
               (case replace_VARIABLE_REGEXP f r of Inl e \<Rightarrow> Inl e | Inr t \<Rightarrow> Inr (x @ t))))"
  by pat_completeness auto
termination
  by (relation "measure (\<lambda>(f, s). length s)") (auto dest: next_variable_shorter)

subsection \<open>The file system\<close>

text \<open>
  A path that exists is a file or a directory; a directory has its entries, and two
  permissions of the process on it: whether it may be listed, and whether entries may be
  created in it. \<^verbatim>\<open>mkdirSync\<close> is called without the recursive option: it creates the one
  directory only, and throws \<^verbatim>\<open>ENOENT\<close> when the parent is missing, \<^verbatim>\<open>ENOTDIR\<close> when the
  parent is a file, \<^verbatim>\<open>EEXIST\<close> when the path exists and \<^verbatim>\<open>EACCES\<close> when nothing may be
  created in the parent. The new directory has the default mode: its owner may list it
  and create entries in it. \<^verbatim>\<open>readdir\<close> reports an error for a missing path, a file and
  a directory that may not be listed.
\<close>

datatype fsnode =
    File
  | Directory "string list" bool bool  \<comment> \<open>entries, may be listed, entries may be created\<close>

type_synonym filesystem = "string \<rightharpoonup> fsnode"

datatype event = ExistsSync string | MkdirSync string | Readdir string | ShowErrorMessage string

definition existsSync :: "filesystem \<Rightarrow> string \<Rightarrow> bool" where
  "existsSync fs p = (fs p \<noteq> None)"

definition mkdirSync :: "host \<Rightarrow> filesystem \<Rightarrow> string \<Rightarrow> error + filesystem" where
  "mkdirSync H fs p =
     (case fs (path_dirname H p) of
        None \<Rightarrow> Inl (FsError ENOENT)
      | Some File \<Rightarrow> Inl (FsError ENOTDIR)
      | Some (Directory es listable writable) \<Rightarrow>
          if fs p \<noteq> None then Inl (FsError EEXIST)
          else if writable then
            Inr (fs(path_dirname H p \<mapsto> Directory (es @ [path_basename H p]) listable writable,
                    p \<mapsto> Directory [] True True))
          else Inl (FsError EACCES))"

definition readdir :: "filesystem \<Rightarrow> string \<Rightarrow> string list option" where
  "readdir fs p =
     (case fs p of
        Some (Directory es listable writable) \<Rightarrow> if listable then Some es else None
      | _ \<Rightarrow> None)"

subsection \<open>The version scanner\<close>

definition patternRegex :: "host \<Rightarrow> string \<Rightarrow> regex_item list" where
  "patternRegex H pattern =
     RegExp (replace_first escaped_marker number_group (escapeStringRegexp (path_basename H pattern)))"

definition fileDir :: "host \<Rightarrow> string \<Rightarrow> string \<Rightarrow> string" where
  "fileDir H pattern resource =
     (if path_isAbsolute H pattern then path_dirname H pattern
      else path_dirname H (path_join H (path_dirname H resource) pattern))"

definition lastVersion :: "regex_item list \<Rightarrow> string list \<Rightarrow> number" where
  \<comment> \<open>the \<^verbatim>\<open>reduce\<close> over the entries of the directory\<close>
  "lastVersion rx files =
     foldl (\<lambda>maxVer file.
              case exec rx file of
                None \<Rightarrow> maxVer
              | Some matched \<Rightarrow> Math_max maxVer (Number (first_capture matched)))
       (Num 0) files"

text \<open>
  When \<^verbatim>\<open>readdir\<close> reports an error the callback calls \<^verbatim>\<open>reject(-2)\<close>, so the awaited
  promise is rejected and \<^verbatim>\<open>getVersionNumber\<close> throws the value \<open>-2\<close>.
\<close>

definition getVersionNumber ::
  "host \<Rightarrow> filesystem \<Rightarrow> string \<Rightarrow> string \<Rightarrow> (error + number) \<times> filesystem \<times> event list" where
  "getVersionNumber H fs pattern resource =
     (if \<not> match_VERSION_FORMAT pattern then (Inr (Num (- 1)), fs, [])
      else
        let rx = patternRegex H pattern;
            dir = fileDir H pattern resource
        in case (if existsSync fs dir then (Inr fs, [ExistsSync dir])
                 else (mkdirSync H fs dir, [ExistsSync dir, MkdirSync dir])) of
             (Inl e, evs) \<Rightarrow> (Inl e, fs, evs)
           | (Inr fs', evs) \<Rightarrow>
               (case readdir fs' dir of
                  None \<Rightarrow> (Inl (Rejected (Num (- 2))), fs', evs @ [Readdir dir])
                | Some files \<Rightarrow>
                    let versionNum = lastVersion rx files
                    in (Inr (if less_than_zero versionNum then versionNum else plus_one versionNum),
                        fs', evs @ [Readdir dir])))"

subsection \<open>Resolving a pattern\<close>

definition defaultPattern :: string where
  "defaultPattern = ''${fileBasenameNoExtension}.${exportExtension}''"

definition replaced_pattern :: "host \<Rightarrow> string option \<Rightarrow> string \<Rightarrow> string option \<Rightarrow> error + string" where
  \<comment> \<open>the constant \<^verbatim>\<open>replaced\<close> of \<^verbatim>\<open>resolveString\<close>\<close>
  "replaced_pattern H pattern resource exportExt =
     replace_VARIABLE_REGEXP (\<lambda>match variable. evaluateSingleVariable H match variable resource exportExt)
       (case pattern of None \<Rightarrow> defaultPattern | Some p \<Rightarrow> p)"

definition resolveString ::
  "host \<Rightarrow> filesystem \<Rightarrow> string option \<Rightarrow> string \<Rightarrow> string option
     \<Rightarrow> (error + string) \<times> filesystem \<times> event list" where
  "resolveString H fs pattern resource exportExt =
     (case replaced_pattern H pattern resource exportExt of
        Inl e \<Rightarrow> (Inl e, fs, [])
      | Inr replaced \<Rightarrow>
          (case getVersionNumber H fs replaced resource of
             (Inl e, fs', evs) \<Rightarrow> (Inl e, fs', evs)
           | (Inr version, fs', evs) \<Rightarrow>
               if version = Num (- 1) then (Inr replaced, fs', evs)
               else if version = Num (- 2) then
                 (Inr replaced, fs',
                  evs @ [ShowErrorMessage ''Could not read files in directory specified for export''])
               else (Inr (replace_VERSION_FORMAT (String version) replaced), fs', evs)))"

subsection \<open>A host: POSIX paths\<close>

text \<open>
  The POSIX flavour of Node's \<^verbatim>\<open>path\<close>, used for the concrete runs below; \<open>cwd\<close> is the
  working directory, which \<^verbatim>\<open>path.relative\<close> consults for relative arguments.
\<close>

definition strip_trailing_slashes :: "string \<Rightarrow> string" where
  "strip_trailing_slashes p = rev (dropWhile (\<lambda>c. c = CHR ''/'') (rev p))"

definition last_component :: "string \<Rightarrow> string" where
  "last_component p = rev (takeWhile (\<lambda>c. c \<noteq> CHR ''/'') (rev (strip_trailing_slashes p)))"

definition posix_basename_ext :: "string \<Rightarrow> string \<Rightarrow> string" where
  "posix_basename_ext p ext =
     (let b = last_component p
      in if ext = [] \<or> length p < length ext then b
         else if ext = p then []
         else if suffix ext b \<and> b \<noteq> ext then take (length b - length ext) b
         else if suffix b ext \<and> b \<noteq> ext then b @ drop (length (strip_trailing_slashes p)) p
         else b)"

definition posix_dirname :: "string \<Rightarrow> string" where
  "posix_dirname p =
     (case p of
        [] \<Rightarrow> ''.''
      | c # cs \<Rightarrow>
          let rest = strip_trailing_slashes cs
          in if CHR ''/'' \<in> set rest then
               (let i = length rest - Suc (length (takeWhile (\<lambda>c. c \<noteq> CHR ''/'') (rev rest)))
                in if c = CHR ''/'' \<and> i = 0 then ''//'' else c # take i rest)
             else if c = CHR ''/'' then ''/'' else ''.'')"

definition posix_extname :: "string \<Rightarrow> string" where
  "posix_extname p =
     (let b = last_component p;
          k = length b - Suc (length (takeWhile (\<lambda>c. c \<noteq> CHR ''.'') (rev b)))
      in if CHR ''.'' \<in> set b \<and> k \<noteq> 0 \<and> b \<noteq> ''..'' then drop k b else [])"

fun split_slash :: "string \<Rightarrow> string list" where
  "split_slash [] = [[]]"
| "split_slash (c # cs) =
     (if c = CHR ''/'' then [] # split_slash cs
      else (case split_slash cs of [] \<Rightarrow> [[c]] | s # ss \<Rightarrow> (c # s) # ss))"

fun join_slash :: "string list \<Rightarrow> string" where
  "join_slash [] = []"
| "join_slash [s] = s"
| "join_slash (s # ss) = s @ CHR ''/'' # join_slash ss"

definition normalize_segments :: "bool \<Rightarrow> string list \<Rightarrow> string list" where
  "normalize_segments allowAboveRoot segs =
     rev (fold (\<lambda>seg res.
            if seg = [] \<or> seg = ''.'' then res
            else if seg = ''..'' then
              (case res of
                 [] \<Rightarrow> if allowAboveRoot then [seg] else []
               | r # rs \<Rightarrow> if r = ''..'' then (if allowAboveRoot then seg # res else res) else rs)
            else seg # res)
          segs [])"

definition posix_isAbsolute :: "string \<Rightarrow> bool" where
  "posix_isAbsolute p = (case p of [] \<Rightarrow> False | c # _ \<Rightarrow> c = CHR ''/'')"

definition posix_normalize :: "string \<Rightarrow> string" where
  "posix_normalize p =
     (if p = [] then ''.''
      else let isAbs = posix_isAbsolute p;
               trailing = (last p = CHR ''/'');
               path = join_slash (normalize_segments (\<not> isAbs) (split_slash p))
           in if path = [] then (if isAbs then ''/'' else if trailing then ''./'' else ''.'')
              else (if isAbs then ''/'' else []) @ path @ (if trailing then ''/'' else []))"

definition posix_join :: "string \<Rightarrow> string \<Rightarrow> string" where
  "posix_join a b =
     (if a = [] \<and> b = [] then ''.''
      else posix_normalize (if a = [] then b else if b = [] then a else a @ CHR ''/'' # b))"

definition resolve_segments :: "string \<Rightarrow> string \<Rightarrow> string list" where
  "resolve_segments cwd p =
     normalize_segments False (split_slash (if posix_isAbsolute p then p else cwd @ CHR ''/'' # p))"

fun strip_common :: "string list \<Rightarrow> string list \<Rightarrow> string list \<times> string list" where
  "strip_common (x # xs) (y # ys) = (if x = y then strip_common xs ys else (x # xs, y # ys))"
| "strip_common xs ys = (xs, ys)"

definition posix_relative :: "string \<Rightarrow> string \<Rightarrow> string \<Rightarrow> string" where
  "posix_relative cwd from to =
     (if from = to then []
      else (case strip_common (resolve_segments cwd from) (resolve_segments cwd to) of
              (f, t) \<Rightarrow> join_slash (replicate (length f) ''..'' @ t)))"

definition posix :: "string \<Rightarrow> (string \<Rightarrow> string option) \<Rightarrow> host" where
  "posix cwd workspace =
     \<lparr> path_basename = last_component,
       path_basename_ext = posix_basename_ext,
       path_extname = posix_extname,
       path_dirname = posix_dirname,
       path_relative = posix_relative cwd,
       path_join = posix_join,
       path_isAbsolute = posix_isAbsolute,
       getWorkspaceFolder = workspace \<rparr>"

text \<open>The project of the examples: the workspace folder \<^verbatim>\<open>/proj\<close>.\<close>

definition proj_workspace :: "string \<Rightarrow> string option" where
  "proj_workspace resource = (if prefix ''/proj/'' resource then Some ''/proj'' else None)"

definition proj_host :: host where
  "proj_host = posix ''/'' proj_workspace"

definition proj_fs :: "string list \<Rightarrow> filesystem" where
  \<comment> \<open>the directory \<^verbatim>\<open>/proj/src\<close> with the given entries\<close>
  "proj_fs entries =
     [''/proj'' \<mapsto> Directory [''src''] True True, ''/proj/src'' \<mapsto> Directory entries True True]"

subsection \<open>Notions used in the statements\<close>

definition token :: "char \<Rightarrow> string" where
  \<comment> \<open>what \<^verbatim>\<open>escapeStringRegexp\<close> writes for one character\<close>
  "token c =
     (if c = CHR ''-'' then backslash # ''x2d''
      else if regex_special c then [backslash, c] else [c])"

definition numeral_text :: "string \<Rightarrow> bool" where
  \<comment> \<open>a digit from 1 to 9 followed by digits\<close>
  "numeral_text c = (case c of [] \<Rightarrow> False | d # ds \<Rightarrow> is_nonzero_digit d \<and> list_all is_digit ds)"

definition captured_numbers :: "regex_item list \<Rightarrow> string list \<Rightarrow> nat list" where
  \<comment> \<open>the values of the first capture over the entries that match\<close>
  "captured_numbers rx files =
     List.map_filter
       (\<lambda>entry. case exec rx entry of Some (c # _) \<Rightarrow> Some (decimal_value c) | _ \<Rightarrow> None) files"

fun number_le :: "number \<Rightarrow> number \<Rightarrow> bool" where
  "number_le NaN b = False"
| "number_le a NaN = False"
| "number_le NegInfinity b = True"
| "number_le a Infinity = True"
| "number_le (Num a) (Num b) = (a \<le> b)"
| "number_le a b = False"

fun intercalate :: "string \<Rightarrow> string list \<Rightarrow> string" where
  \<comment> \<open>the pieces with the separator between them\<close>
  "intercalate sep [] = []"
| "intercalate sep [p] = p"
| "intercalate sep (p # q # ps) = p @ sep @ intercalate sep (q # ps)"

section \<open>Properties\<close>

subsection \<open>The evaluator\<close>

lemma evaluateSingleVariable_no_workspace:
  "getWorkspaceFolder H resource = None \<Longrightarrow>
   evaluateSingleVariable H match variable resource exportExt = Inl TypeError"
  by (simp add: evaluateSingleVariable_def)

lemma proj_workspace_part: "getWorkspaceFolder proj_host ''/proj/src/part.scad'' = Some ''/proj''"
  by (simp add: proj_host_def posix_def proj_workspace_def)

text \<open>
  C2: when the project root of the file cannot be determined, the workspace-relative
  placeholders \<^verbatim>\<open>workspaceFolder\<close>, \<^verbatim>\<open>workspaceFolderBasename\<close> and \<^verbatim>\<open>relativeFile\<close> should
  evaluate to their own text. The code throws instead: for a file outside the workspace
  each of the three evaluations ends in a TypeError.
\<close>

theorem evaluateSingleVariable_throws_without_workspace:
  "evaluateSingleVariable proj_host ''${workspaceFolder}'' ''workspaceFolder''
       ''/other/part.scad'' None = Inl TypeError
   \<and> evaluateSingleVariable proj_host ''${workspaceFolderBasename}'' ''workspaceFolderBasename''
       ''/other/part.scad'' None = Inl TypeError
   \<and> evaluateSingleVariable proj_host ''${relativeFile}'' ''relativeFile''
       ''/other/part.scad'' None = Inl TypeError"
  by (simp add: evaluateSingleVariable_def proj_host_def posix_def proj_workspace_def)

text \<open>
  C3, as stated, fails: with no override supplied the placeholder \<^verbatim>\<open>exportExtension\<close> is
  not left unchanged, it evaluates to the default \<^verbatim>\<open>scad\<close> of the parameter.
\<close>

theorem exportExtension_without_override_is_scad:
  "evaluateSingleVariable proj_host ''${exportExtension}'' ''exportExtension''
     ''/proj/src/part.scad'' None = Inr ''scad''
   \<and> ''scad'' \<noteq> ''${exportExtension}''"
  by (simp add: evaluateSingleVariable_def proj_host_def posix_def proj_workspace_def)

text \<open>
  C3, amended: for a file with a project root, \<^verbatim>\<open>exportExtension\<close> evaluates to the
  override when one is supplied and is not empty, to \<^verbatim>\<open>scad\<close> when none is supplied, and
  to the original placeholder text when the supplied override is the empty string.
\<close>

theorem exportExtension_value:
  assumes "getWorkspaceFolder H resource = Some workspaceFolder"
  shows "evaluateSingleVariable H match ''exportExtension'' resource exportExt =
           Inr (case exportExt of
                  None \<Rightarrow> ''scad''
                | Some override \<Rightarrow> if override \<noteq> [] then override else match)"
  using assms by (simp add: evaluateSingleVariable_def split: option.splits)

theorem exportExtension_value_witness:
  "getWorkspaceFolder proj_host ''/proj/src/part.scad'' = Some ''/proj''
   \<and> evaluateSingleVariable proj_host ''${exportExtension}'' ''exportExtension''
        ''/proj/src/part.scad'' (Some ''stl'') = Inr ''stl''
   \<and> evaluateSingleVariable proj_host ''${exportExtension}'' ''exportExtension''
        ''/proj/src/part.scad'' (Some []) = Inr ''${exportExtension}''"
  using proj_workspace_part
    exportExtension_value [OF proj_workspace_part, of "''${exportExtension}''" "Some ''stl''"]
    exportExtension_value [OF proj_workspace_part, of "''${exportExtension}''" "Some []"]
  by simp

lemma variable_end_name:
  "CHR ''}'' \<notin> set v \<Longrightarrow> \<forall>c \<in> set v. \<not> line_terminator c \<Longrightarrow>
   variable_end (v @ CHR ''}'' # rest) = Some (v, rest)"
  by (induction v) auto

text \<open>
  The switch echoes an unknown name: for a file with a project root, a name outside the
  supported set evaluates to the exact text \<^verbatim>\<open>${name}\<close>, and resolving that text again
  gives the same text (a name captured by the variable regex has no closing brace and no
  line terminator).
\<close>

lemma unknown_variable_echoed:
  assumes "getWorkspaceFolder H resource = Some workspaceFolder"
    and "variable \<notin> set supported_variables"
  shows "evaluateSingleVariable H (''${'' @ variable @ ''}'') variable resource exportExt
           = Inr (''${'' @ variable @ ''}'')
         \<and> (CHR ''}'' \<notin> set variable \<and> (\<forall>c \<in> set variable. \<not> line_terminator c) \<longrightarrow>
              replaced_pattern H (Some (''${'' @ variable @ ''}'')) resource exportExt
                = Inr (''${'' @ variable @ ''}''))"
proof -
  have echo: "evaluateSingleVariable H (''${'' @ variable @ ''}'') variable resource exportExt
                = Inr (''${'' @ variable @ ''}'')"
    using assms by (simp add: evaluateSingleVariable_def supported_variables_def)
  have "replaced_pattern H (Some (''${'' @ variable @ ''}'')) resource exportExt
          = Inr (''${'' @ variable @ ''}'')"
    if "CHR ''}'' \<notin> set variable" and "\<forall>c \<in> set variable. \<not> line_terminator c"
  proof -
    have "next_variable (''${'' @ variable @ ''}'') = Some (variable, [])"
      using that variable_end_name [of variable "[]"] by (simp add: next_variable_def)
    then show ?thesis
      using echo by (simp add: replaced_pattern_def)
  qed
  with echo show ?thesis by blast
qed

lemma unknown_variable_echoed_example:
  "getWorkspaceFolder proj_host ''/proj/src/part.scad'' = Some ''/proj''
   \<and> ''noMatch'' \<notin> set supported_variables
   \<and> CHR ''}'' \<notin> set ''noMatch'' \<and> \<not> list_ex line_terminator ''noMatch''
   \<and> evaluateSingleVariable proj_host ''${noMatch}'' ''noMatch'' ''/proj/src/part.scad'' None
        = Inr ''${noMatch}''
   \<and> replaced_pattern proj_host (Some ''${noMatch}'') ''/proj/src/part.scad'' None
        = Inr ''${noMatch}''"
proof -
  have n: "''noMatch'' \<notin> set supported_variables"
    by (simp add: supported_variables_def)
  have c: "CHR ''}'' \<notin> set ''noMatch'' \<and> (\<forall>c \<in> set ''noMatch''. \<not> line_terminator c)"
    by (simp add: line_terminator_def)
  show ?thesis
    using unknown_variable_echoed [OF proj_workspace_part n, of None] n c proj_workspace_part
    by (simp add: list_ex_iff)
qed

text \<open>
  C6: a name outside the supported set should evaluate to its own text \<^verbatim>\<open>${name}\<close>,
  whatever the context. The code does not reach the switch for a file outside every
  workspace folder: the unknown name \<^verbatim>\<open>noMatch\<close> ends in a TypeError, and so does
  \<^verbatim>\<open>resolveString\<close> on the pattern \<^verbatim>\<open>${noMatch}\<close>.
\<close>

theorem unknown_variable_throws_without_workspace:
  "''noMatch'' \<notin> set supported_variables
   \<and> evaluateSingleVariable proj_host ''${noMatch}'' ''noMatch'' ''/other/part.scad'' None
       = Inl TypeError
   \<and> fst (resolveString proj_host (proj_fs []) (Some ''${noMatch}'') ''/other/part.scad'' None)
       = Inl TypeError"
  by (simp add: supported_variables_def evaluateSingleVariable_def proj_host_def posix_def
      proj_workspace_def resolveString_def replaced_pattern_def next_variable_def
      line_terminator_def)

subsection \<open>Patterns without a version marker\<close>

lemma match_VERSION_FORMAT_sublist: "match_VERSION_FORMAT s \<longleftrightarrow> sublist version_marker s"
  unfolding match_VERSION_FORMAT_def
  by (induction s) (auto simp: sublist_Cons_right version_marker_def split: option.splits)

lemma replaced_workspace_example:
  "replaced_pattern proj_host (Some ''${workspaceFolderBasename}/${fileBasename}'')
     ''/proj/src/part.scad'' None = Inr ''proj/part.scad''"
  by (simp add: replaced_pattern_def next_variable_def evaluateSingleVariable_def proj_host_def
      posix_def proj_workspace_def last_component_def strip_trailing_slashes_def line_terminator_def)

text \<open>
  C5: when the string left by the substitution of the placeholders contains no version
  marker, \<^verbatim>\<open>resolveString\<close> returns that string, leaves the file system as it is and
  records no call (no existence check, no creation, no listing, no notification); the
  scanner itself returns \<open>-1\<close> without any call.
\<close>

theorem no_marker_no_filesystem:
  assumes "replaced_pattern H pattern resource exportExt = Inr replaced"
    and "\<not> sublist version_marker replaced"
  shows "resolveString H fs pattern resource exportExt = (Inr replaced, fs, [])
         \<and> getVersionNumber H fs replaced resource = (Inr (Num (- 1)), fs, [])"
  using assms
  by (simp add: resolveString_def getVersionNumber_def match_VERSION_FORMAT_sublist)

theorem no_marker_no_filesystem_witness:
  "replaced_pattern proj_host (Some ''${workspaceFolderBasename}/${fileBasename}'')
     ''/proj/src/part.scad'' None = Inr ''proj/part.scad''
   \<and> \<not> sublist version_marker ''proj/part.scad''
   \<and> resolveString proj_host (proj_fs []) (Some ''${workspaceFolderBasename}/${fileBasename}'')
       ''/proj/src/part.scad'' None = (Inr ''proj/part.scad'', proj_fs [], [])
   \<and> getVersionNumber proj_host (proj_fs []) ''proj/part.scad'' ''/proj/src/part.scad''
       = (Inr (Num (- 1)), proj_fs [], [])"
proof -
  have m: "\<not> sublist version_marker ''proj/part.scad''"
    unfolding match_VERSION_FORMAT_sublist [symmetric]
    by (simp add: match_VERSION_FORMAT_def version_marker_def)
  show ?thesis
    using no_marker_no_filesystem [OF replaced_workspace_example m, of "proj_fs []"]
      replaced_workspace_example m
    by simp
qed

subsection \<open>Numbers below \<open>2 ^ 53\<close> are exact\<close>

lemma number_of_nat_safe: "n < 2 ^ 53 \<Longrightarrow> number_of_nat n = Num (int n)"
proof -
  assume n: "n < 2 ^ 53"
  have "(2::nat) ^ 53 < 2 ^ 1024" by (rule power_strict_increasing) simp_all
  with n have "n < 2 ^ 1024" by (rule less_trans)
  with n show ?thesis by (simp add: number_of_nat_def round_to_double_def)
qed

lemma bit_length_power: "bit_length (2 ^ k) = Suc k"
  by (induction k) (simp_all add: bit_length.simps)

lemma round_to_double_power: "round_to_double (2 ^ k) = 2 ^ k"
proof (cases "(2::nat) ^ k < 2 ^ 53")
  case True
  then show ?thesis by (simp only: round_to_double_def if_True)
next
  case False
  have "k < 53 \<Longrightarrow> (2::nat) ^ k < 2 ^ 53"
    by (rule power_strict_increasing) simp_all
  with False have k: "53 \<le> k" by (meson not_le)
  let ?e = "Suc k - 53"
  have d: "(2::nat) ^ ?e dvd 2 ^ k"
    using k by (intro le_imp_power_dvd) simp
  then have r: "(2::nat) ^ k mod 2 ^ ?e = 0" by simp
  have h: "(0::nat) < 2 ^ (?e - 1)" by simp
  have "round_to_double (2 ^ k) = 2 ^ k div 2 ^ ?e * 2 ^ ?e"
    using False r h
    by (simp only: round_to_double_def bit_length_power Let_def if_False if_True simp_thms)
  also have "\<dots> = 2 ^ k" using d by simp
  finally show ?thesis .
qed

lemma number_of_nat_2_53: "number_of_nat 9007199254740992 = Num 9007199254740992"
  using round_to_double_power [of 53] by (simp add: number_of_nat_def)

lemma plus_one_safe:
  assumes "0 \<le> v" "v < 2 ^ 53"
  shows "plus_one (Num v) = Num (v + 1)"
proof (cases "v + 1 < 2 ^ 53")
  case True
  then have "nat (v + 1) < 2 ^ 53" using assms by (simp add: nat_less_iff)
  from number_of_nat_safe [OF this] assms show ?thesis
    by (simp add: number_of_int_def)
next
  case False
  with assms have v: "v = 9007199254740991" by simp
  then show ?thesis
    by (simp add: number_of_int_def number_of_nat_2_53)
qed

lemma String_safe: "0 \<le> V \<Longrightarrow> V < 2 ^ 53 \<Longrightarrow> String (Num V) = decimal (nat V)"
  by (simp add: nat_toString_def nat_less_iff)

lemma decimal_value_snoc: "decimal_value (ds @ [c]) = 10 * decimal_value ds + digit_value c"
  by (simp add: decimal_value_def)

lemma digit_value_char_of: "d < 10 \<Longrightarrow> digit_value (char_of (48 + d)) = d"
  by (simp add: digit_value_def)

text \<open>The digits written by \<open>decimal\<close> read back as the number.\<close>

lemma decimal_value_decimal: "decimal_value (decimal n) = n"
proof (induction n rule: decimal.induct)
  case (1 n)
  show ?case
  proof (cases "n < 10")
    case True
    then show ?thesis
      using digit_value_char_of [of n] by (simp add: decimal.simps [of n] decimal_value_def)
  next
    case False
    with 1 have "decimal_value (decimal (n div 10)) = n div 10" by simp
    with False show ?thesis
      using digit_value_char_of [of "n mod 10"]
      by (simp add: decimal.simps [of n] decimal_value_snoc)
  qed
qed

lemma foldl_digits_mono: "a \<le> foldl (\<lambda>a c. 10 * a + digit_value c) a ds"
proof (induction ds arbitrary: a)
  case Nil
  then show ?case by simp
next
  case (Cons d ds)
  have "a \<le> 10 * a + digit_value d" by simp
  also have "\<dots> \<le> foldl (\<lambda>a c. 10 * a + digit_value c) (10 * a + digit_value d) ds"
    by (rule Cons.IH)
  finally show ?case by simp
qed

lemma numeral_text_value: "numeral_text c \<Longrightarrow> 1 \<le> decimal_value c"
proof (cases c)
  case Nil
  assume "numeral_text c"
  with Nil show ?thesis by (simp add: numeral_text_def)
next
  case (Cons d ds)
  assume "numeral_text c"
  with Cons have "49 \<le> (of_char d :: nat)"
    by (simp add: numeral_text_def is_nonzero_digit_def)
  then have "1 \<le> digit_value d"
    unfolding digit_value_def by linarith
  also have "\<dots> \<le> foldl (\<lambda>a c. 10 * a + digit_value c) (digit_value d) ds"
    by (rule foldl_digits_mono)
  finally show ?thesis using Cons by (simp add: decimal_value_def)
qed

lemma of_char_digit: "d < 10 \<Longrightarrow> (of_char (char_of (48 + d :: nat)) :: nat) = 48 + d"
  by simp

lemma is_digit_char_of: "d < 10 \<Longrightarrow> is_digit (char_of (48 + d :: nat))"
  unfolding is_digit_def by (simp only: of_char_digit) simp

lemma is_nonzero_digit_char_of:
  "0 < d \<Longrightarrow> d < 10 \<Longrightarrow> is_nonzero_digit (char_of (48 + d :: nat))"
  unfolding is_nonzero_digit_def by (simp only: of_char_digit) simp

lemma numeral_text_snoc: "numeral_text t \<Longrightarrow> is_digit c \<Longrightarrow> numeral_text (t @ [c])"
  by (cases t) (simp_all add: numeral_text_def)

text \<open>The decimal numeral of a positive number has no leading zero.\<close>

lemma numeral_text_decimal: "0 < n \<Longrightarrow> numeral_text (decimal n)"
proof (induction n rule: decimal.induct)
  case (1 n)
  show ?case
  proof (cases "n < 10")
    case True
    with "1.prems" show ?thesis
      using is_nonzero_digit_char_of [of n] by (simp add: decimal.simps [of n] numeral_text_def)
  next
    case False
    then have "0 < n div 10" by simp
    with 1 False have "numeral_text (decimal (n div 10))" by simp
    with False show ?thesis
      using is_digit_char_of [of "n mod 10"]
      by (simp add: decimal.simps [of n] numeral_text_snoc)
  qed
qed

lemma char_of_digit_value: "is_digit c \<Longrightarrow> char_of (48 + digit_value c) = c"
proof -
  assume "is_digit c"
  then have "48 + digit_value c = (of_char c :: nat)"
    by (simp add: is_digit_def digit_value_def)
  then show ?thesis by simp
qed

lemma digit_value_less: "is_digit c \<Longrightarrow> digit_value c < 10"
  unfolding is_digit_def digit_value_def by linarith

lemma is_nonzero_digit_is_digit: "is_nonzero_digit c \<Longrightarrow> is_digit c"
  by (simp add: is_digit_def is_nonzero_digit_def)

text \<open>
  A digit string without a leading zero is the decimal numeral of its value: such a
  string is determined by its value.
\<close>

lemma decimal_decimal_value: "numeral_text t \<Longrightarrow> decimal (decimal_value t) = t"
proof (induction t rule: rev_induct)
  case Nil
  then show ?case by (simp add: numeral_text_def)
next
  case (snoc c ds)
  show ?case
  proof (cases ds)
    case Nil
    with snoc.prems have "is_digit c"
      by (simp add: numeral_text_def is_nonzero_digit_is_digit)
    with Nil show ?thesis
      using digit_value_less [of c] char_of_digit_value [of c]
      by (simp add: decimal_value_def decimal.simps [of "digit_value c"])
  next
    case (Cons d ds')
    with snoc.prems have nt: "numeral_text ds" and dc: "is_digit c"
      by (simp_all add: numeral_text_def)
    from numeral_text_value [OF nt] have "1 \<le> decimal_value ds" .
    then have big: "\<not> 10 * decimal_value ds + digit_value c < 10" by simp
    have "(10 * decimal_value ds + digit_value c) div 10 = decimal_value ds"
      "(10 * decimal_value ds + digit_value c) mod 10 = digit_value c"
      using digit_value_less [OF dc] by simp_all
    with big snoc.IH [OF nt] char_of_digit_value [OF dc] show ?thesis
      by (simp add: decimal_value_snoc decimal.simps [of "10 * decimal_value ds + digit_value c"])
  qed
qed

lemma Math_max_not_negative: "\<not> less_than_zero a \<Longrightarrow> \<not> less_than_zero (Math_max a b)"
  by (cases a; cases b) auto





lemma number_of_nat_not_negative: "number_of_nat n = Num v \<Longrightarrow> 0 \<le> v"
  by (auto simp: number_of_nat_def Let_def split: if_splits)

lemma plus_one_not_negative: "\<not> less_than_zero x \<Longrightarrow> plus_one x = Num v \<Longrightarrow> 0 \<le> v"
  by (cases x) (auto simp: number_of_int_def dest: number_of_nat_not_negative split: if_splits)

text \<open>Rounding never takes a positive integer to zero.\<close>

lemma bit_length_lower: "0 < n \<Longrightarrow> 2 ^ (bit_length n - 1) \<le> n"
proof (induction n rule: bit_length.induct)
  case (1 n)
  show ?case
  proof (cases "n div 2 = 0")
    case True
    with 1 have "n = 1" by (simp add: div_eq_0_iff)
    then show ?thesis by (simp add: bit_length.simps)
  next
    case False
    then have "0 < n div 2" by simp
    with 1 have ih: "2 ^ (bit_length (n div 2) - 1) \<le> n div 2" by simp
    have b: "bit_length n - 1 = bit_length (n div 2)"
      using 1 by (simp add: bit_length.simps [of n])
    have "0 < bit_length (n div 2)"
      using False by (simp add: bit_length.simps [of "n div 2"])
    then have "(2::nat) ^ bit_length (n div 2) = 2 * 2 ^ (bit_length (n div 2) - 1)"
      by (cases "bit_length (n div 2)") simp_all
    also have "\<dots> \<le> 2 * (n div 2)" using ih by simp
    also have "\<dots> \<le> n" by simp
    finally show ?thesis using b by simp
  qed
qed

lemma round_to_double_positive: "0 < n \<Longrightarrow> 0 < round_to_double n"
proof (cases "n < 2 ^ 53")
  case True
  assume "0 < n"
  with True show ?thesis by (simp add: round_to_double_def)
next
  case False
  assume n: "0 < n"
  let ?e = "bit_length n - 53"
  have "(2::nat) ^ ?e \<le> 2 ^ (bit_length n - 1)"
    by (rule power_increasing) simp_all
  also have "\<dots> \<le> n" using n by (rule bit_length_lower)
  finally have "0 < n div 2 ^ ?e"
    by (simp add: div_greater_zero_iff)
  then show ?thesis
    using False by (simp add: round_to_double_def Let_def)
qed

lemma number_of_nat_ge_one: "1 \<le> n \<Longrightarrow> number_le (Num 1) (number_of_nat n)"
  using round_to_double_positive [of n] by (simp add: number_of_nat_def Let_def)

lemma plus_one_positive:
  assumes "\<not> less_than_zero x" "plus_one x = Num v"
  shows "1 \<le> v"
proof (cases x)
  case (Num u)
  with assms have u: "0 \<le> u" by simp
  then have "plus_one x = number_of_nat (nat (u + 1))"
    using Num by (simp add: number_of_int_def)
  with assms(2) number_of_nat_ge_one [of "nat (u + 1)"] u show ?thesis by simp
qed (use assms in auto)

subsection \<open>The regular expression that is built\<close>

lemma escape_Nil [simp]: "escapeStringRegexp [] = []"
  by (simp add: escapeStringRegexp_def)

lemma escape_Cons: "escapeStringRegexp (c # cs) = token c @ escapeStringRegexp cs"
  by (simp add: escapeStringRegexp_def token_def regex_special_def backslash_def)

lemma escape_append: "escapeStringRegexp (a @ b) = escapeStringRegexp a @ escapeStringRegexp b"
  by (simp add: escapeStringRegexp_def)

lemma escape_marker: "escapeStringRegexp version_marker = escaped_marker"
  by (simp add: escape_Cons token_def version_marker_def escaped_marker_def regex_special_def
      backslash_def)

text \<open>The tokens form a prefix code: an escaped string can be read back token by token.\<close>

lemma token_prefix:
  "prefix (token c @ x) (escapeStringRegexp b)
   \<longleftrightarrow> (\<exists>b'. b = c # b' \<and> prefix x (escapeStringRegexp b'))"
proof (cases b)
  case Nil
  then show ?thesis by (simp add: token_def)
next
  case (Cons d b')
  then show ?thesis
    by (auto simp: escape_Cons token_def regex_special_def backslash_def)
qed

lemma escaped_marker_tokens:
  "escaped_marker
   = token (CHR ''$'') @ token (CHR ''{'') @ token (CHR ''#'') @ token (CHR ''}'') @ []"
  by (simp add: escaped_marker_def token_def regex_special_def backslash_def)

lemma escaped_marker_prefix:
  "prefix escaped_marker (escapeStringRegexp b) \<longleftrightarrow> prefix version_marker b"
proof
  assume "prefix escaped_marker (escapeStringRegexp b)"
  then obtain r where "b = CHR ''$'' # CHR ''{'' # CHR ''#'' # CHR ''}'' # r"
    unfolding escaped_marker_tokens token_prefix by auto
  then show "prefix version_marker b"
    by (simp add: version_marker_def)
next
  assume "prefix version_marker b"
  then obtain r where "b = version_marker @ r"
    by (auto simp: prefix_def)
  then show "prefix escaped_marker (escapeStringRegexp b)"
    by (simp add: escape_append escape_marker)
qed

lemma escape_no_dollar: "escapeStringRegexp b \<noteq> CHR ''$'' # t"
  by (cases b) (auto simp: escape_Cons token_def regex_special_def backslash_def)

text \<open>The search for the escaped marker cannot succeed inside a token.\<close>

lemma replace_first_skip_token:
  assumes "\<not> prefix version_marker (c # cs)"
  shows "replace_first escaped_marker number_group (token c @ escapeStringRegexp cs)
         = token c @ replace_first escaped_marker number_group (escapeStringRegexp cs)"
proof -
  have n0: "\<not> prefix escaped_marker (token c @ escapeStringRegexp cs)"
    using assms escaped_marker_prefix [of "c # cs"] by (simp add: escape_Cons)
  have n1: "\<not> prefix escaped_marker (c # escapeStringRegexp cs)" if "regex_special c"
    using escape_no_dollar [of cs]
    by (cases "escapeStringRegexp cs") (auto simp: escaped_marker_def)
  show ?thesis
  proof (cases "c = CHR ''-''")
    case True
    then show ?thesis
      using n0 by (simp add: token_def escaped_marker_def backslash_def)
  next
    case False
    show ?thesis
    proof (cases "regex_special c")
      case True
      with False n0 n1 show ?thesis by (simp add: token_def)
    next
      case plain: False
      with False n0 show ?thesis by (simp add: token_def)
    qed
  qed
qed

lemma replace_first_at_start: "pat \<noteq> [] \<Longrightarrow> replace_first pat rep (pat @ r) = rep @ r"
  by (cases pat) auto

lemma escaped_marker_not_Nil: "escaped_marker \<noteq> []"
  by (simp add: escaped_marker_def)

lemma replace_first_escaped:
  "replace_first escaped_marker number_group (escapeStringRegexp b)
   = (case split_marker b of
        None \<Rightarrow> escapeStringRegexp b
      | Some (p, s) \<Rightarrow> escapeStringRegexp p @ number_group @ escapeStringRegexp s)"
proof (induction b)
  case Nil
  then show ?case by (simp add: escaped_marker_not_Nil)
next
  case (Cons c cs)
  show ?case
  proof (cases "prefix version_marker (c # cs)")
    case True
    then have "c # cs = version_marker @ drop 3 cs"
      by (auto simp: prefix_def version_marker_def)
    then have "escapeStringRegexp (c # cs) = escaped_marker @ escapeStringRegexp (drop 3 cs)"
      by (metis escape_append escape_marker)
    with True show ?thesis
      by (simp add: replace_first_at_start escaped_marker_not_Nil)
  next
    case False
    then show ?thesis
      using Cons.IH replace_first_skip_token [OF False]
      by (auto simp: escape_Cons split: option.splits)
  qed
qed

lemma RegExp_escape: "RegExp (escapeStringRegexp s @ rest) = map RChar s @ RegExp rest"
proof (induction s)
  case Nil
  then show ?case by simp
next
  case (Cons c cs)
  have "RegExp (token c @ x) = RChar c # RegExp x" for x
    by (auto simp: token_def regex_special_def backslash_def number_group_def)
  with Cons show ?case by (simp add: escape_Cons)
qed

lemma RegExp_number_group: "RegExp (number_group @ rest) = RNumberGroup # RegExp rest"
  by (simp add: number_group_def backslash_def)

lemma patternRegex_with_marker:
  "split_marker (path_basename H pattern) = Some (p, s) \<Longrightarrow>
   patternRegex H pattern = map RChar p @ RNumberGroup # map RChar s"
  using RegExp_escape [of s "[]"]
  by (simp add: patternRegex_def replace_first_escaped RegExp_escape RegExp_number_group)

lemma patternRegex_without_marker:
  "split_marker (path_basename H pattern) = None \<Longrightarrow>
   patternRegex H pattern = map RChar (path_basename H pattern)"
  using RegExp_escape [of "path_basename H pattern" "[]"]
  by (simp add: patternRegex_def replace_first_escaped)

subsection \<open>Matching\<close>

lemma first_some_map_SomeD:
  "first_some (map f xs) = Some y \<Longrightarrow> \<exists>x \<in> set xs. f x = Some y"
proof (induction xs)
  case Nil
  then show ?case by simp
next
  case (Cons a xs)
  then show ?case by (cases "f a") auto
qed


lemma match_here_literal: "match_here (map RChar p @ r) (p @ t) = match_here r t"
  by (induction p) auto

lemma match_here_literalD:
  "match_here (map RChar p @ r) t = Some caps
   \<Longrightarrow> \<exists>t'. t = p @ t' \<and> match_here r t' = Some caps"
  by (induction p arbitrary: t) (auto split: list.splits if_splits)

lemma match_here_literal_only:
  "match_here (map RChar s) t = Some caps \<Longrightarrow> caps = [] \<and> prefix s t"
  using match_here_literalD [of s "[]" t caps] by auto

lemma take_digits: "k \<le> length (takeWhile P ds) \<Longrightarrow> list_all P (take k ds)"
proof -
  assume k: "k \<le> length (takeWhile P ds)"
  have "take k ds = take k (takeWhile P ds @ dropWhile P ds)" by simp
  also have "\<dots> = take k (takeWhile P ds)" using k by (simp del: takeWhile_dropWhile_id)
  finally have "set (take k ds) \<subseteq> set (takeWhile P ds)" by (metis set_take_subset)
  then show ?thesis by (auto simp: list_all_iff dest: set_takeWhileD)
qed

lemma match_here_group:
  assumes "match_here (RNumberGroup # map RChar s) t = Some caps"
  shows "\<exists>c. caps = [c] \<and> numeral_text c \<and> prefix (c @ s) t"
proof (cases t)
  case Nil
  with assms show ?thesis by simp
next
  case (Cons d ds)
  with assms have nz: "is_nonzero_digit d" by (auto split: if_splits)
  from assms Cons nz
  have "first_some
          (map (\<lambda>k. map_option (\<lambda>caps. (d # take k ds) # caps) (match_here (map RChar s) (drop k ds)))
             (rev [0 ..< Suc (length (takeWhile is_digit ds))])) = Some caps"
    by (simp del: upt_Suc)
  from first_some_map_SomeD [OF this]
  obtain k where "k \<in> set (rev [0 ..< Suc (length (takeWhile is_digit ds))])"
    and m: "map_option (\<lambda>caps. (d # take k ds) # caps) (match_here (map RChar s) (drop k ds))
            = Some caps"
    by blast
  then have k: "k \<le> length (takeWhile is_digit ds)"
    by (simp del: upt_Suc)
  from m obtain caps' where c: "match_here (map RChar s) (drop k ds) = Some caps'"
    and caps: "caps = (d # take k ds) # caps'" by auto
  from match_here_literal_only [OF c] have "caps' = []" "prefix s (drop k ds)" by auto
  moreover have "numeral_text (d # take k ds)"
    using nz take_digits [OF k] by (simp add: numeral_text_def)
  moreover have "prefix ((d # take k ds) @ s) t"
    using \<open>prefix s (drop k ds)\<close> Cons
    by (metis append_Cons append_take_drop_id same_prefix_prefix)
  ultimately show ?thesis using caps by blast
qed

lemma exec_SomeD:
  "exec r t = Some caps \<Longrightarrow> \<exists>i \<le> length t. match_here r (drop i t) = Some caps"
  unfolding exec_def
  by (drule first_some_map_SomeD) (auto simp del: upt_Suc simp: less_Suc_eq_le)

lemma exec_capture:
  assumes "exec (map RChar p @ RNumberGroup # map RChar s) t = Some caps"
  shows "\<exists>c. caps = [c] \<and> numeral_text c"
proof -
  from exec_SomeD [OF assms]
  obtain i where "match_here (map RChar p @ RNumberGroup # map RChar s) (drop i t) = Some caps"
    by blast
  from match_here_literalD [OF this]
  obtain t' where "match_here (RNumberGroup # map RChar s) t' = Some caps"
    by blast
  from match_here_group [OF this] show ?thesis by blast
qed




lemma match_here_leading_zero:
  "match_here (map RChar p @ RNumberGroup # r) (p @ CHR ''0'' # rest) = None"
  by (simp add: match_here_literal is_nonzero_digit_def)

subsection \<open>The fold over the entries\<close>

lemma foldl_not_negative:
  "\<not> less_than_zero a \<Longrightarrow>
   \<not> less_than_zero
       (foldl (\<lambda>maxVer entry.
                 case exec rx entry of
                   None \<Rightarrow> maxVer
                 | Some matched \<Rightarrow> Math_max maxVer (Number (first_capture matched))) a files)"
  by (induction files arbitrary: a) (auto simp: Math_max_not_negative split: option.splits)

lemma lastVersion_not_negative: "\<not> less_than_zero (lastVersion rx files)"
  unfolding lastVersion_def by (rule foldl_not_negative) simp

lemma lastVersion_safe_aux:
  assumes rx: "rx = map RChar p @ RNumberGroup # map RChar s"
    and safe: "\<forall>n \<in> set (captured_numbers rx files). n < 2 ^ 53"
    and a: "a < 2 ^ 53"
  shows "foldl (\<lambda>maxVer entry.
              case exec rx entry of
                None \<Rightarrow> maxVer
              | Some matched \<Rightarrow> Math_max maxVer (Number (first_capture matched)))
           (Num (int a)) files
         = Num (int (fold max (captured_numbers rx files) a))"
  using safe a
proof (induction files arbitrary: a)
  case Nil
  then show ?case by (simp add: captured_numbers_def)
next
  case (Cons entry files)
  show ?case
  proof (cases "exec rx entry")
    case None
    with Cons show ?thesis by (simp add: captured_numbers_def)
  next
    case (Some caps)
    with exec_capture [of p s entry caps] rx obtain c where c: "caps = [c]" by auto
    with Some Cons.prems have n: "decimal_value c < 2 ^ 53"
      and rest: "\<forall>n \<in> set (captured_numbers rx files). n < 2 ^ 53"
      by (auto simp: captured_numbers_def)
    have m: "max (decimal_value c) a < 2 ^ 53" using n Cons.prems(2) by simp
    have "Math_max (Num (int a)) (Number (first_capture caps))
          = Num (int (max (decimal_value c) a))"
      using c number_of_nat_safe [OF n] by (simp add: Number_def first_capture_def max.commute)
    with Cons.IH [OF rest m] Some c show ?thesis
      by (simp add: captured_numbers_def)
  qed
qed

lemma lastVersion_safe:
  assumes "rx = map RChar p @ RNumberGroup # map RChar s"
    and "\<forall>n \<in> set (captured_numbers rx files). n < 2 ^ 53"
  shows "lastVersion rx files = Num (int (Max (insert 0 (set (captured_numbers rx files)))))"
proof -
  have "Max (set (0 # captured_numbers rx files)) = fold max (captured_numbers rx files) 0"
    by (rule Max.set_eq_fold)
  then show ?thesis
    using lastVersion_safe_aux [OF assms, of 0] by (simp add: lastVersion_def)
qed

lemma Max_safe:
  assumes "\<forall>n \<in> set xs. n < (b::nat)" "0 < b"
  shows "Max (insert 0 (set xs)) < b"
  using assms by (subst Max_less_iff) auto



subsection \<open>What the scanner and the resolver can return\<close>

lemma getVersionNumber_values:
  assumes "getVersionNumber H fs pattern resource = (Inr version, fs', evs)"
  shows "version = Num (- 1) \<and> \<not> match_VERSION_FORMAT pattern
         \<or> version \<noteq> Num (- 1) \<and> version \<noteq> Num (- 2)"
proof (cases "match_VERSION_FORMAT pattern")
  case False
  with assms show ?thesis by (simp add: getVersionNumber_def)
next
  case True
  with assms obtain files
    where v: "version = plus_one (lastVersion (patternRegex H pattern) files)"
    by (auto simp: getVersionNumber_def Let_def lastVersion_not_negative
        split: if_splits sum.splits option.splits prod.splits)
  have "version \<noteq> Num (- 1)" "version \<noteq> Num (- 2)"
    using plus_one_not_negative [OF lastVersion_not_negative, of "patternRegex H pattern" files] v
    by fastforce+
  then show ?thesis by simp
qed

lemma getVersionNumber_Num_positive:
  assumes "getVersionNumber H fs pattern resource = (Inr (Num V), fs', evs)"
    and "match_VERSION_FORMAT pattern"
  shows "1 \<le> V"
proof -
  from assms obtain files
    where "plus_one (lastVersion (patternRegex H pattern) files) = Num V"
    by (auto simp: getVersionNumber_def Let_def lastVersion_not_negative
        split: if_splits sum.splits option.splits prod.splits)
  with plus_one_positive [OF lastVersion_not_negative] show ?thesis by blast
qed

lemma getVersionNumber_events:
  "getVersionNumber H fs pattern resource = (r, fs', evs) \<Longrightarrow> ShowErrorMessage m \<notin> set evs"
  by (auto simp: getVersionNumber_def Let_def split: if_splits sum.splits option.splits prod.splits)

text \<open>
  The scanner never returns \<open>-2\<close>, so the branch of \<^verbatim>\<open>resolveString\<close> that shows the
  error message is never taken: no run of the resolver notifies.
\<close>

lemma resolveString_never_notifies:
  assumes "resolveString H fs pattern resource exportExt = (r, fs', evs)"
  shows "ShowErrorMessage m \<notin> set evs"
proof (cases "replaced_pattern H pattern resource exportExt")
  case (Inl e)
  with assms show ?thesis by (simp add: resolveString_def)
next
  case (Inr replaced)
  obtain v fs1 evs1 where g: "getVersionNumber H fs replaced resource = (v, fs1, evs1)"
    by (cases "getVersionNumber H fs replaced resource") auto
  show ?thesis
  proof (cases v)
    case (Inl e)
    with assms Inr g getVersionNumber_events [OF g] show ?thesis
      by (auto simp: resolveString_def)
  next
    case r: (Inr version)
    with getVersionNumber_values [of H fs replaced resource version fs1 evs1] g
    have "version \<noteq> Num (- 2)" by auto
    with assms Inr g r getVersionNumber_events [OF g] show ?thesis
      by (auto simp: resolveString_def split: if_splits)
  qed
qed

lemma mkdirSync_leaf:
  assumes "fs d = None" "fs (path_dirname H d) = Some (Directory es listable True)"
  shows "mkdirSync H fs d
         = Inr (fs(path_dirname H d \<mapsto> Directory (es @ [path_basename H d]) listable True,
                   d \<mapsto> Directory [] True True))"
    and "dom (fs(path_dirname H d \<mapsto> Directory (es @ [path_basename H d]) listable True,
                 d \<mapsto> Directory [] True True)) = insert d (dom fs)"
  using assms by (auto simp: mkdirSync_def)


subsection \<open>Replacing every marker\<close>

lemma no_straddle:
  assumes "\<not> sublist version_marker (c # cs)"
  shows "\<not> prefix version_marker (c # cs @ version_marker @ rest)"
proof
  assume p: "prefix version_marker (c # cs @ version_marker @ rest)"
  from assms have n: "\<not> prefix version_marker (c # cs)"
    by (simp add: sublist_Cons_right)
  show False
  proof (cases cs)
    case Nil
    with p show ?thesis by (simp add: version_marker_def)
  next
    case c1: (Cons x1 l1)
    show ?thesis
    proof (cases l1)
      case Nil
      with p c1 show ?thesis by (simp add: version_marker_def)
    next
      case c2: (Cons x2 l2)
      show ?thesis
      proof (cases l2)
        case Nil
        with p c1 c2 show ?thesis by (simp add: version_marker_def)
      next
        case (Cons x3 l3)
        with p n c1 c2 show ?thesis by (simp add: version_marker_def)
      qed
    qed
  qed
qed

lemma replace_unmarked: "\<not> sublist version_marker p \<Longrightarrow> replace_VERSION_FORMAT rep p = p"
  by (induction p) (auto simp: sublist_Cons_right)

lemma replace_piece:
  "\<not> sublist version_marker p \<Longrightarrow>
   replace_VERSION_FORMAT rep (p @ version_marker @ rest)
     = p @ rep @ replace_VERSION_FORMAT rep rest"
proof (induction p)
  case Nil
  then show ?case by (simp add: version_marker_def)
next
  case (Cons c cs)
  from Cons.prems have "\<not> sublist version_marker cs"
    by (simp add: sublist_Cons_right)
  with Cons.IH no_straddle [OF Cons.prems, of rest] show ?case by simp
qed

lemma replace_intercalate:
  "\<forall>p \<in> set pieces. \<not> sublist version_marker p \<Longrightarrow>
   replace_VERSION_FORMAT rep (intercalate version_marker pieces) = intercalate rep pieces"
  by (induction pieces rule: induct_list012) (simp_all add: replace_unmarked replace_piece)

text \<open>\<open>split_marker\<close> cuts a string at the first occurrence of the marker.\<close>

lemma split_marker_append: "split_marker b = Some (p, s) \<Longrightarrow> b = p @ version_marker @ s"
proof (induction b arbitrary: p)
  case Nil
  then show ?case by simp
next
  case (Cons c cs)
  show ?case
  proof (cases "prefix version_marker (c # cs)")
    case True
    with Cons.prems show ?thesis
      by (auto simp: prefix_def version_marker_def)
  next
    case False
    with Cons show ?thesis
      by (auto split: option.splits)
  qed
qed

lemma split_marker_first:
  "\<not> sublist version_marker p \<Longrightarrow> split_marker (p @ version_marker @ s) = Some (p, s)"
proof (induction p)
  case Nil
  then show ?case by (simp add: version_marker_def)
next
  case (Cons c cs)
  from Cons.prems have "\<not> sublist version_marker cs"
    by (simp add: sublist_Cons_right)
  with Cons.IH no_straddle [OF Cons.prems, of s] show ?case by simp
qed

subsection \<open>Concrete runs in the example project\<close>

lemmas posix_eval = proj_host_def posix_def posix_isAbsolute_def posix_dirname_def posix_join_def
  posix_normalize_def normalize_segments_def strip_trailing_slashes_def last_component_def Let_def

lemma fileDir_examples:
  "fileDir proj_host ''part_v${#}.stl'' ''/proj/src/part.scad'' = ''/proj/src''"
  "fileDir proj_host ''out/p${#}.stl'' ''/proj/src/part.scad'' = ''/proj/src/out''"
  "fileDir proj_host ''p${#}_${#}.stl'' ''/proj/src/part.scad'' = ''/proj/src''"
  "fileDir proj_host ''${#}.stl'' ''/proj/src/part.scad'' = ''/proj/src''"
  by (simp_all add: fileDir_def posix_eval)

lemma dirname_out: "path_dirname proj_host ''/proj/src/out'' = ''/proj/src''"
  by (simp add: posix_eval)

lemma basename_examples:
  "path_basename proj_host ''part_v${#}.stl'' = ''part_v${#}.stl''"
  "path_basename proj_host ''out/p${#}.stl'' = ''p${#}.stl''"
  "path_basename proj_host ''p${#}_${#}.stl'' = ''p${#}_${#}.stl''"
  "path_basename proj_host ''${#}.stl'' = ''${#}.stl''"
  by (simp_all add: posix_eval)

lemma marker_examples:
  "match_VERSION_FORMAT ''part_v${#}.stl''"
  "match_VERSION_FORMAT ''out/p${#}.stl''"
  "match_VERSION_FORMAT ''p${#}_${#}.stl''"
  "match_VERSION_FORMAT ''${#}.stl''"
  by (simp_all add: match_VERSION_FORMAT_def version_marker_def)

lemma split_examples:
  "split_marker (path_basename proj_host ''part_v${#}.stl'') = Some (''part_v'', ''.stl'')"
  "split_marker (path_basename proj_host ''out/p${#}.stl'') = Some (''p'', ''.stl'')"
  "split_marker (path_basename proj_host ''p${#}_${#}.stl'') = Some (''p'', ''_${#}.stl'')"
  "split_marker (path_basename proj_host ''${#}.stl'') = Some ([], ''.stl'')"
  by (simp_all add: basename_examples version_marker_def)

lemma unmarked_pieces:
  "\<not> sublist version_marker ''p''" "\<not> sublist version_marker ''_''"
  "\<not> sublist version_marker ''.stl''" "\<not> sublist version_marker ''part_v''"
  unfolding match_VERSION_FORMAT_sublist [symmetric]
  by (simp_all add: match_VERSION_FORMAT_def version_marker_def)

lemma replaced_examples:
  "replaced_pattern proj_host (Some ''part_v${#}.stl'') ''/proj/src/part.scad'' None
     = Inr ''part_v${#}.stl''"
  "replaced_pattern proj_host (Some ''p${#}_${#}.stl'') ''/proj/src/part.scad'' None
     = Inr ''p${#}_${#}.stl''"
  "replaced_pattern proj_host (Some ''${fileBasenameNoExtension}_v${#}.stl'')
     ''/proj/src/part.scad'' None = Inr ''part_v${#}.stl''"
  by (simp_all add: replaced_pattern_def next_variable_def evaluateSingleVariable_def proj_host_def
      posix_def proj_workspace_def line_terminator_def fileBasenameNoExt_def posix_basename_ext_def
      posix_extname_def last_component_def strip_trailing_slashes_def suffix_def Let_def)

lemma regex_example:
  "patternRegex proj_host ''part_v${#}.stl''
   = map RChar ''part_v'' @ RNumberGroup # map RChar ''.stl''"
  using split_examples(1) by (rule patternRegex_with_marker)

lemma exec_examples:
  "exec (patternRegex proj_host ''part_v${#}.stl'') ''part_v1.stl'' = Some [''1'']"
  "exec (patternRegex proj_host ''part_v${#}.stl'') ''part_v2.stl'' = Some [''2'']"
  "exec (patternRegex proj_host ''part_v${#}.stl'') ''part_v3.stl'' = Some [''3'']"
  "exec (patternRegex proj_host ''part_v${#}.stl'') ''part_v5.stl'' = Some [''5'']"
  "exec (patternRegex proj_host ''part_v${#}.stl'') ''part_v01.stl'' = None"
  "exec (patternRegex proj_host ''part_v${#}.stl'') ''old_part_v7.stl.bak'' = Some [''7'']"
  "exec (patternRegex proj_host ''part_v${#}.stl'') ''part_v9007199254740992.stl''
     = Some [''9007199254740992'']"
  by (simp_all add: regex_example exec_def is_nonzero_digit_def is_digit_def)

lemma bit_length_example: "bit_length 9007199254740993 = 54"
  by (simp add: bit_length.simps)

lemma round_example: "round_to_double 9007199254740993 = 9007199254740992"
  by (simp add: round_to_double_def bit_length_example Let_def)

lemma number_of_nat_rounded: "number_of_nat 9007199254740993 = Num 9007199254740992"
  by (simp add: number_of_nat_def round_example)

lemma plus_one_examples:
  "plus_one (Num 0) = Num 1" "plus_one (Num 1) = Num 2" "plus_one (Num 3) = Num 4"
  "plus_one (Num 7) = Num 8"
  using plus_one_safe [of 0] plus_one_safe [of 1] plus_one_safe [of 3] plus_one_safe [of 7]
  by simp_all

lemma number_of_nat_examples:
  "number_of_nat (Suc 0) = Num 1" "number_of_nat 3 = Num 3" "number_of_nat 7 = Num 7"
  using number_of_nat_safe [of 1] number_of_nat_safe [of 3] number_of_nat_safe [of 7]
  by simp_all

lemma decimal_value_examples:
  "decimal_value ''1'' = 1" "decimal_value ''2'' = 2" "decimal_value ''3'' = 3"
  "decimal_value ''5'' = 5" "decimal_value ''7'' = 7"
  "decimal_value ''9007199254740992'' = 9007199254740992"
  by (simp_all add: decimal_value_def digit_value_def)

lemma char_of_digits:
  "char_of (48::nat) = CHR ''0''" "char_of (49::nat) = CHR ''1''" "char_of (50::nat) = CHR ''2''"
  "char_of (51::nat) = CHR ''3''" "char_of (52::nat) = CHR ''4''" "char_of (53::nat) = CHR ''5''"
  "char_of (54::nat) = CHR ''6''" "char_of (55::nat) = CHR ''7''" "char_of (56::nat) = CHR ''8''"
  "char_of (57::nat) = CHR ''9''"
  by (rule of_char_eqI [where ?'a = nat], simp)+

lemma decimal_examples: "decimal 4 = ''4''" "decimal 42 = ''42''"
  "decimal 1000000000000000000000 = ''1000000000000000000000''"
  by (simp_all add: decimal.simps char_of_digits)

text \<open>The number \<open>10 ^ 21\<close> is a double; one more is rounded back to it, and it is printed
  with an exponent.\<close>

lemma bit_length_1e21:
  "bit_length 1000000000000000000000 = 70" "bit_length 1000000000000000000001 = 70"
  by (simp_all add: bit_length.simps)

lemma round_1e21:
  "round_to_double 1000000000000000000000 = 1000000000000000000000"
  "round_to_double 1000000000000000000001 = 1000000000000000000000"
  by (simp_all add: round_to_double_def bit_length_1e21 Let_def)

lemma number_of_nat_1e21:
  "number_of_nat 1000000000000000000000 = Num 1000000000000000000000"
  "number_of_nat 1000000000000000000001 = Num 1000000000000000000000"
  by (simp_all add: number_of_nat_def round_1e21)

lemma nat_toString_1e21: "nat_toString 1000000000000000000000 = ''1e+21''"
  by (simp add: nat_toString_def shortest_digits_def digit_candidates_def decimal_examples
      closer_def round_to_double_def bit_length.simps Let_def decimal.simps char_of_digits)

lemma decimal_value_1e21: "decimal_value ''1000000000000000000000'' = 1000000000000000000000"
  by (simp add: decimal_value_def digit_value_def)

lemma exec_1e21:
  "exec (patternRegex proj_host ''part_v${#}.stl'') ''part_v1000000000000000000000.stl''
     = Some [''1000000000000000000000'']"
  by (simp add: regex_example exec_def is_nonzero_digit_def is_digit_def)

lemma exec_two_markers:
  "exec (patternRegex proj_host ''p${#}_${#}.stl'') ''p41_${#}.stl'' = Some [''41'']"
proof -
  have "patternRegex proj_host ''p${#}_${#}.stl''
        = map RChar ''p'' @ RNumberGroup # map RChar ''_${#}.stl''"
    using split_examples(3) by (rule patternRegex_with_marker)
  then show ?thesis
    by (simp add: exec_def is_nonzero_digit_def is_digit_def)
qed

lemma captured_example:
  "captured_numbers (patternRegex proj_host ''part_v${#}.stl'')
     [''part_v1.stl'', ''part_v2.stl'', ''part_v5.stl''] = [1, 2, 5]"
  by (simp add: captured_numbers_def exec_examples decimal_value_examples)

lemmas scanner_eval = getVersionNumber_def marker_examples fileDir_examples existsSync_def
  readdir_def proj_fs_def lastVersion_def exec_examples first_capture_def Number_def
  decimal_value_examples number_of_nat_examples plus_one_examples Let_def

lemma getVersionNumber_examples:
  "getVersionNumber proj_host (proj_fs []) ''p${#}_${#}.stl'' ''/proj/src/part.scad''
     = (Inr (Num 1), proj_fs [], [ExistsSync ''/proj/src'', Readdir ''/proj/src''])"
  "getVersionNumber proj_host (proj_fs [''part_v1.stl'', ''part_v3.stl'']) ''part_v${#}.stl''
     ''/proj/src/part.scad''
     = (Inr (Num 4), proj_fs [''part_v1.stl'', ''part_v3.stl''],
        [ExistsSync ''/proj/src'', Readdir ''/proj/src''])"
  "getVersionNumber proj_host (proj_fs [''old_part_v7.stl.bak'']) ''part_v${#}.stl''
     ''/proj/src/part.scad''
     = (Inr (Num 8), proj_fs [''old_part_v7.stl.bak''],
        [ExistsSync ''/proj/src'', Readdir ''/proj/src''])"
  by (simp_all add: scanner_eval del: plus_one.simps)

lemma getVersionNumber_1e21:
  "getVersionNumber proj_host (proj_fs [''part_v1000000000000000000000.stl'']) ''part_v${#}.stl''
     ''/proj/src/part.scad''
   = (Inr (Num 1000000000000000000000), proj_fs [''part_v1000000000000000000000.stl''],
      [ExistsSync ''/proj/src'', Readdir ''/proj/src''])"
  by (simp add: getVersionNumber_def marker_examples fileDir_examples existsSync_def readdir_def
      proj_fs_def lastVersion_def exec_1e21 first_capture_def Number_def decimal_value_1e21
      number_of_nat_1e21 number_of_int_def Let_def)

lemma getVersionNumber_two_markers:
  "getVersionNumber proj_host (proj_fs [''p41_${#}.stl'']) ''p${#}_${#}.stl'' ''/proj/src/part.scad''
   = (Inr (Num 42), proj_fs [''p41_${#}.stl''], [ExistsSync ''/proj/src'', Readdir ''/proj/src''])"
proof -
  have "decimal_value ''41'' = 41" by (simp add: decimal_value_def digit_value_def)
  moreover have "number_of_nat 41 = Num 41" using number_of_nat_safe [of 41] by simp
  moreover have "plus_one (Num 41) = Num 42" using plus_one_safe [of 41] by simp
  ultimately show ?thesis
    by (simp add: getVersionNumber_def marker_examples fileDir_examples existsSync_def readdir_def
        proj_fs_def lastVersion_def exec_two_markers first_capture_def Number_def Let_def
        del: plus_one.simps)
qed

subsection \<open>The version scanner\<close>

text \<open>
  C7, as stated, fails in its consequence that an entry whose number has a leading zero is
  not matched: for the pattern \<^verbatim>\<open>${#}.stl\<close> the entry \<^verbatim>\<open>01.stl\<close> is matched, one
  character further on, with the capture \<^verbatim>\<open>1\<close>, and the scanner returns 2.
\<close>

theorem leading_zero_entry_is_matched:
  "exec (patternRegex proj_host ''${#}.stl'') ''01.stl'' = Some [''1'']
   \<and> fst (getVersionNumber proj_host (proj_fs [''01.stl'']) ''${#}.stl'' ''/proj/src/part.scad'')
       = Inr (Num 2)"
proof -
  have rx: "patternRegex proj_host ''${#}.stl'' = map RChar [] @ RNumberGroup # map RChar ''.stl''"
    using split_examples(4) by (rule patternRegex_with_marker)
  have e: "exec (patternRegex proj_host ''${#}.stl'') ''01.stl'' = Some [''1'']"
    by (simp add: rx exec_def is_nonzero_digit_def is_digit_def)
  show ?thesis
    using e by (simp add: scanner_eval del: plus_one.simps)
qed

text \<open>
  C7, amended: when the basename of the intermediate pattern contains the marker, the
  source of the regular expression is the escaped text before the first marker, the group
  \<^verbatim>\<open>([1-9][0-9]*)\<close> and the escaped text after it, and the expression matches the text
  before, a number, and the text after, literally. Every capture of a match is a digit
  from 1 to 9 followed by digits, so its value is at least 1; and a zero right after the
  text before the marker is rejected at that position.
\<close>

theorem version_regex_structure:
  assumes "split_marker (path_basename H pattern) = Some (p, s)"
  shows "replace_first escaped_marker number_group (escapeStringRegexp (path_basename H pattern))
           = escapeStringRegexp p @ number_group @ escapeStringRegexp s
         \<and> patternRegex H pattern = map RChar p @ RNumberGroup # map RChar s
         \<and> (\<forall>entry caps. exec (patternRegex H pattern) entry = Some caps \<longrightarrow>
               (\<exists>c. caps = [c] \<and> numeral_text c \<and> 1 \<le> decimal_value c
                    \<and> number_le (Num 1) (Number (first_capture caps))))
         \<and> (\<forall>rest. match_here (patternRegex H pattern) (p @ CHR ''0'' # rest) = None)"
proof -
  have rx: "patternRegex H pattern = map RChar p @ RNumberGroup # map RChar s"
    using assms by (rule patternRegex_with_marker)
  have "\<exists>c. caps = [c] \<and> numeral_text c \<and> 1 \<le> decimal_value c
            \<and> number_le (Num 1) (Number (first_capture caps))"
    if "exec (patternRegex H pattern) entry = Some caps" for entry caps
  proof -
    from exec_capture [of p s entry caps] that rx
    obtain c where c: "caps = [c]" "numeral_text c" by auto
    from numeral_text_value [OF c(2)] have v: "1 \<le> decimal_value c" .
    from number_of_nat_ge_one [OF v] c v show ?thesis
      by (simp add: Number_def first_capture_def)
  qed
  then show ?thesis
    using assms rx by (simp add: replace_first_escaped match_here_leading_zero)
qed

theorem version_regex_structure_witness:
  "replace_first escaped_marker number_group
     (escapeStringRegexp (path_basename proj_host ''part_v${#}.stl''))
     = escapeStringRegexp ''part_v'' @ number_group @ escapeStringRegexp ''.stl''
   \<and> patternRegex proj_host ''part_v${#}.stl''
       = map RChar ''part_v'' @ RNumberGroup # map RChar ''.stl''
   \<and> match_here (patternRegex proj_host ''part_v${#}.stl'') (''part_v'' @ CHR ''0'' # ''1.stl'')
       = None"
  using version_regex_structure [OF split_examples(1)] by blast



text \<open>
  When the marker is only in the directory part of the pattern, the basename has no marker
  and the expression no group: the capture of a match is \<^verbatim>\<open>undefined\<close>, the maximum
  becomes NaN and the text \<^verbatim>\<open>NaN\<close> takes the place of the marker.
\<close>

lemma marker_in_directory_gives_NaN:
  "fst (resolveString proj_host
          ((proj_fs [])(''/proj/src/v${#}'' \<mapsto> Directory [''out.stl''] True True))
          (Some ''v${#}/out.stl'') ''/proj/src/part.scad'' None) = Inr ''vNaN/out.stl''"
proof -
  have r: "replaced_pattern proj_host (Some ''v${#}/out.stl'') ''/proj/src/part.scad'' None
           = Inr ''v${#}/out.stl''"
    by (simp add: replaced_pattern_def next_variable_def evaluateSingleVariable_def proj_host_def
        posix_def proj_workspace_def line_terminator_def)
  have m: "match_VERSION_FORMAT ''v${#}/out.stl''"
    by (simp add: match_VERSION_FORMAT_def version_marker_def)
  have d: "fileDir proj_host ''v${#}/out.stl'' ''/proj/src/part.scad'' = ''/proj/src/v${#}''"
    by (simp add: fileDir_def posix_eval)
  have b: "split_marker (path_basename proj_host ''v${#}/out.stl'') = None"
    by (simp add: posix_eval version_marker_def)
  have rx: "patternRegex proj_host ''v${#}/out.stl'' = map RChar ''out.stl''"
    using patternRegex_without_marker [OF b] by (simp add: posix_eval)
  have e: "exec (patternRegex proj_host ''v${#}/out.stl'') ''out.stl'' = Some []"
    by (simp add: rx exec_def)
  show ?thesis
    by (simp add: resolveString_def r getVersionNumber_def m d e existsSync_def readdir_def
        proj_fs_def lastVersion_def first_capture_def Number_def Let_def version_marker_def)
qed

text \<open>
  C4, as stated, fails for large numbers: with the single entry
  \<^verbatim>\<open>part_v9007199254740992.stl\<close> the captured number is \<open>2 ^ 53\<close> and the scanner returns
  \<open>2 ^ 53\<close> again, not the maximum plus one, because the sum is rounded to a double.
\<close>

theorem next_version_rounded_at_2_53:
  "fst (getVersionNumber proj_host (proj_fs [''part_v9007199254740992.stl'']) ''part_v${#}.stl''
         ''/proj/src/part.scad'') = Inr (Num 9007199254740992)
   \<and> captured_numbers (patternRegex proj_host ''part_v${#}.stl'') [''part_v9007199254740992.stl'']
       = [9007199254740992]"
  by (simp add: getVersionNumber_def marker_examples fileDir_examples existsSync_def readdir_def
      proj_fs_def lastVersion_def exec_examples first_capture_def Number_def decimal_value_examples
      number_of_nat_2_53 number_of_int_def number_of_nat_rounded captured_numbers_def Let_def)

text \<open>
  C4, amended: when the basename of the pattern contains the marker, the destination
  directory can be listed (it exists with the entries \<open>files\<close> and may be listed, or it is
  missing, its parent is a directory in which entries may be created, and it is created
  empty) and every captured number is below
  \<open>2 ^ 53\<close>, the scanner returns the maximum of the captured numbers plus one, with
  maximum 0 when no entry matches: 6 for the numbers 1, 2 and 5, and 1 for an empty or a
  newly created directory.
\<close>

theorem next_version_is_max_plus_one:
  assumes "match_VERSION_FORMAT pattern"
    and "split_marker (path_basename H pattern) = Some (p, s)"
    and "fs (fileDir H pattern resource) = Some (Directory files True writable)
         \<or> (fs (fileDir H pattern resource) = None \<and> files = []
            \<and> fs (path_dirname H (fileDir H pattern resource)) = Some (Directory es listable True))"
    and "\<forall>n \<in> set (captured_numbers (patternRegex H pattern) files). n < 2 ^ 53"
  shows "fst (getVersionNumber H fs pattern resource)
         = Inr (Num (int (Max (insert 0 (set (captured_numbers (patternRegex H pattern) files))) + 1)))"
proof -
  let ?rx = "patternRegex H pattern"
  let ?d = "fileDir H pattern resource"
  let ?m = "Max (insert 0 (set (captured_numbers ?rx files)))"
  have rx: "?rx = map RChar p @ RNumberGroup # map RChar s"
    using assms(2) by (rule patternRegex_with_marker)
  have lv: "lastVersion ?rx files = Num (int ?m)"
    using rx assms(4) by (rule lastVersion_safe)
  have "?m < 2 ^ 53"
    using assms(4) by (rule Max_safe) simp
  then have "int ?m < 2 ^ 53"
    by (metis of_nat_less_numeral_power_cancel_iff)
  then have po: "plus_one (Num (int ?m)) = Num (int ?m + 1)"
    by (intro plus_one_safe) simp_all
  from assms(3) show ?thesis
  proof
    assume "fs ?d = Some (Directory files True writable)"
    then show ?thesis
      using assms(1) lv po
      by (simp add: getVersionNumber_def existsSync_def readdir_def Let_def)
  next
    assume a: "fs ?d = None \<and> files = []
               \<and> fs (path_dirname H ?d) = Some (Directory es listable True)"
    with mkdirSync_leaf(1) [of fs ?d H es listable]
    have "mkdirSync H fs ?d
          = Inr (fs(path_dirname H ?d \<mapsto> Directory (es @ [path_basename H ?d]) listable True,
                    ?d \<mapsto> Directory [] True True))"
      by simp
    then show ?thesis
      using assms(1) lv po a by (simp add: getVersionNumber_def existsSync_def readdir_def Let_def)
  qed
qed

theorem next_version_is_max_plus_one_witness:
  "fst (getVersionNumber proj_host (proj_fs [''part_v1.stl'', ''part_v2.stl'', ''part_v5.stl''])
         ''part_v${#}.stl'' ''/proj/src/part.scad'') = Inr (Num 6)
   \<and> fst (getVersionNumber proj_host (proj_fs []) ''part_v${#}.stl'' ''/proj/src/part.scad'')
       = Inr (Num 1)
   \<and> fst (getVersionNumber proj_host (proj_fs [''a'']) ''out/p${#}.stl'' ''/proj/src/part.scad'')
       = Inr (Num 1)"
proof -
  let ?files = "[''part_v1.stl'', ''part_v2.stl'', ''part_v5.stl'']"
  have "fst (getVersionNumber proj_host (proj_fs ?files) ''part_v${#}.stl'' ''/proj/src/part.scad'')
        = Inr (Num 6)"
    using next_version_is_max_plus_one [OF marker_examples(1) split_examples(1),
        where fs = "proj_fs ?files" and resource = "''/proj/src/part.scad''" and files = ?files
          and writable = True]
    by (simp add: fileDir_examples proj_fs_def captured_example)
  moreover
  have "fst (getVersionNumber proj_host (proj_fs []) ''part_v${#}.stl'' ''/proj/src/part.scad'')
        = Inr (Num 1)"
    using next_version_is_max_plus_one [OF marker_examples(1) split_examples(1),
        where fs = "proj_fs []" and resource = "''/proj/src/part.scad''" and files = "[]"
          and writable = True]
    by (simp add: fileDir_examples proj_fs_def captured_numbers_def)
  moreover
  have "fst (getVersionNumber proj_host (proj_fs [''a'']) ''out/p${#}.stl'' ''/proj/src/part.scad'')
        = Inr (Num 1)"
    using next_version_is_max_plus_one [OF marker_examples(2) split_examples(2),
        where fs = "proj_fs [''a'']" and resource = "''/proj/src/part.scad''" and files = "[]"
          and es = "[''a'']" and listable = True]
    by (simp add: fileDir_examples dirname_out proj_fs_def captured_numbers_def)
  ultimately show ?thesis by simp
qed



subsection \<open>The resolver\<close>

text \<open>
  Whenever the destination directory exists and cannot be listed, the resolver ends in the
  rejection with \<open>-2\<close>, after the existence check and the listing.
\<close>

lemma resolveString_listing_fails:
  assumes "replaced_pattern H pattern resource exportExt = Inr replaced"
    and "match_VERSION_FORMAT replaced"
    and "existsSync fs (fileDir H replaced resource)"
    and "readdir fs (fileDir H replaced resource) = None"
  shows "resolveString H fs pattern resource exportExt
         = (Inl (Rejected (Num (- 2))), fs,
            [ExistsSync (fileDir H replaced resource), Readdir (fileDir H replaced resource)])"
  using assms by (simp add: resolveString_def getVersionNumber_def Let_def)

text \<open>
  C1: when the destination directory cannot be listed, \<^verbatim>\<open>resolveString\<close> should return the
  intermediate string with the marker in it and notify once. The code does neither: for a
  directory \<^verbatim>\<open>/proj/src\<close> that exists and cannot be listed, the promise of
  \<^verbatim>\<open>resolveString\<close> is rejected with \<open>-2\<close>, and the only events are the existence check
  and the listing.
\<close>

theorem resolveString_rejects_when_listing_fails:
  "(case resolveString proj_host ((proj_fs [])(''/proj/src'' \<mapsto> Directory [] False True))
           (Some ''part_v${#}.stl'') ''/proj/src/part.scad'' None of
      (r, fs', evs) \<Rightarrow> (r, evs))
   = (Inl (Rejected (Num (- 2))), [ExistsSync ''/proj/src'', Readdir ''/proj/src''])"
  by (simp add: resolveString_def replaced_examples getVersionNumber_def marker_examples
      fileDir_examples existsSync_def readdir_def proj_fs_def Let_def)

text \<open>
  C9, as stated, fails for large versions: with the single entry
  \<^verbatim>\<open>part_v1000000000000000000000.stl\<close> the scanner returns the integer \<open>10 ^ 21\<close>, and the
  marker is replaced by \<^verbatim>\<open>1e+21\<close>, which is not a decimal numeral.
\<close>

theorem large_version_not_decimal:
  "fst (getVersionNumber proj_host (proj_fs [''part_v1000000000000000000000.stl''])
          ''part_v${#}.stl'' ''/proj/src/part.scad'') = Inr (Num 1000000000000000000000)
   \<and> fst (resolveString proj_host (proj_fs [''part_v1000000000000000000000.stl''])
          (Some ''part_v${#}.stl'') ''/proj/src/part.scad'' None) = Inr ''part_v1e+21.stl''
   \<and> \<not> numeral_text ''1e+21''"
  by (simp add: resolveString_def replaced_examples getVersionNumber_1e21 nat_toString_1e21
      version_marker_def numeral_text_def is_digit_def)

text \<open>
  C9, amended: when the scanner returns a version for an intermediate string with the
  marker, the result is the intermediate string with every occurrence of the marker
  replaced by \<^verbatim>\<open>String(version)\<close>: if the string is the pieces \<open>pieces\<close> with the marker
  between them, the result is the same pieces with the text of the version between them.
  When the version is an integer \<open>V\<close> below \<open>2 ^ 53\<close>, it is at least 1 and that text is
  the decimal representation of \<open>V\<close>: digits without a leading zero whose value is \<open>V\<close>.
\<close>

theorem every_marker_replaced_by_version:
  assumes "replaced_pattern H pattern resource exportExt = Inr replaced"
    and "match_VERSION_FORMAT replaced"
    and "getVersionNumber H fs replaced resource = (Inr version, fs', evs)"
    and "replaced = intercalate version_marker pieces"
    and "\<forall>p \<in> set pieces. \<not> sublist version_marker p"
  shows "resolveString H fs pattern resource exportExt
           = (Inr (intercalate (String version) pieces), fs', evs)
         \<and> (\<forall>V. version = Num V \<and> V < 2 ^ 53 \<longrightarrow>
               1 \<le> V \<and> numeral_text (String version)
               \<and> int (decimal_value (String version)) = V)"
proof -
  from getVersionNumber_values [OF assms(3)] assms(2)
  have "version \<noteq> Num (- 1)" "version \<noteq> Num (- 2)" by auto
  then have "resolveString H fs pattern resource exportExt
           = (Inr (intercalate (String version) pieces), fs', evs)"
    using assms by (simp add: resolveString_def replace_intercalate)
  moreover have "1 \<le> V \<and> numeral_text (String version)
                 \<and> int (decimal_value (String version)) = V"
    if v: "version = Num V" "V < 2 ^ 53" for V
  proof -
    from getVersionNumber_Num_positive [of H fs replaced resource V fs' evs] assms(2,3) v
    have p: "1 \<le> V" by simp
    with v have s: "String version = decimal (nat V)"
      using String_safe [of V] by simp
    from p have "0 < nat V" by simp
    from numeral_text_decimal [OF this] s p show ?thesis
      by (simp add: decimal_value_decimal)
  qed
  ultimately show ?thesis by blast
qed

theorem every_marker_replaced_by_version_witness:
  "fst (resolveString proj_host (proj_fs [''p41_${#}.stl'']) (Some ''p${#}_${#}.stl'')
          ''/proj/src/part.scad'' None) = Inr ''p42_42.stl''
   \<and> numeral_text ''42'' \<and> decimal_value ''42'' = 42
   \<and> fst (resolveString proj_host (proj_fs [''part_v1.stl'', ''part_v3.stl''])
          (Some ''${fileBasenameNoExtension}_v${#}.stl'') ''/proj/src/part.scad'' None)
       = Inr ''part_v4.stl''"
proof -
  from every_marker_replaced_by_version
    [OF replaced_examples(2) marker_examples(3) getVersionNumber_two_markers,
      of "[''p'', ''_'', ''.stl'']"]
  have "resolveString proj_host (proj_fs [''p41_${#}.stl'']) (Some ''p${#}_${#}.stl'')
          ''/proj/src/part.scad'' None
        = (Inr (intercalate (String (Num 42)) [''p'', ''_'', ''.stl'']), proj_fs [''p41_${#}.stl''],
           [ExistsSync ''/proj/src'', Readdir ''/proj/src''])"
    and "numeral_text (String (Num 42))" and "int (decimal_value (String (Num 42))) = 42"
    by (simp_all add: version_marker_def unmarked_pieces [unfolded version_marker_def]
        del: String.simps)
  moreover have "String (Num 42) = ''42''"
    by (simp add: nat_toString_def decimal_examples)
  moreover
  from every_marker_replaced_by_version
    [OF replaced_examples(3) marker_examples(1) getVersionNumber_examples(2),
      of "[''part_v'', ''.stl'']"]
  have "fst (resolveString proj_host (proj_fs [''part_v1.stl'', ''part_v3.stl''])
          (Some ''${fileBasenameNoExtension}_v${#}.stl'') ''/proj/src/part.scad'' None)
       = Inr ''part_v4.stl''"
    by (simp add: version_marker_def unmarked_pieces [unfolded version_marker_def]
        nat_toString_def decimal_examples)
  ultimately show ?thesis by simp
qed

end
